theory Spec2Isabelle
  imports Main
begin

section \<open>Chat backend: transcript store, HTTP response and conversation orchestrator\<close>

text \<open>
  The repository holds two revisions of the same Express server: \<^verbatim>\<open>src/server.ts\<close> and
  \<^verbatim>\<open>src/index2.ts\<close> (lines 1 to 465). Their CRUD routes and the two send routes are the
  same text; \<^verbatim>\<open>handleChatMessages\<close> differs in three places (text extraction, context
  string, error handling). Both are embedded, selected by a \<open>variant\<close>.

  Conventions of the embedding.
  \<^item> A JavaScript string is a \<open>string\<close>; a \<open>char\<close> stands for one UTF-16 code unit below
    256. \<open>undefined\<close> is \<open>None\<close>.
  \<^item> The Postgres tables are lists of rows in insertion order. \<open>NOW()\<close> reads a logical
    clock that advances with every reading; \<open>SERIAL\<close> columns read a sequence.
  \<^item> A rejected promise or a thrown exception is \<open>Inl message\<close>. A statement of the store
    fails on a parameter it cannot take (an id that is no 32-bit integer, a text holding
    U+0000), on a constraint of the schema, and also when the request's \<open>outage\<close> names
    it: this stands for every failure that does not come from the request (connectivity,
    a sequence that has run out of values).
  \<^item> The frames written to the response are kept symbolic (\<open>TextDelta c\<close> for
    \<^verbatim>\<open>data: {"type":"text-delta","textDelta":c}\n\n\<close>, and so on), as are JSON bodies.
\<close>

subsection \<open>Rows and request payloads\<close>

text \<open>\<^verbatim>\<open>CREATE TABLE chats (id SERIAL PRIMARY KEY, title VARCHAR(255) NOT NULL,
  created_at TIMESTAMP DEFAULT NOW(), updated_at TIMESTAMP DEFAULT NOW())\<close>\<close>

record chat =
  chat_id :: int
  chat_title :: string
  chat_created_at :: nat
  chat_updated_at :: nat

text \<open>\<^verbatim>\<open>CREATE TABLE messages (id SERIAL PRIMARY KEY,
  chat_id INTEGER REFERENCES chats(id) ON DELETE CASCADE, role VARCHAR(50) NOT NULL,
  content TEXT NOT NULL, created_at TIMESTAMP DEFAULT NOW())\<close>\<close>

record dbmessage =
  msg_id :: int
  msg_chat_id :: int
  msg_role :: string
  msg_content :: string
  msg_created_at :: nat

record db =
  chats :: "chat list"
  messages :: "dbmessage list"
  chats_id_seq :: int
  messages_id_seq :: int
  clock :: nat

text \<open>One element of \<^verbatim>\<open>ChatRequest.messages\<close>.\<close>

record part =
  part_type :: string
  part_text :: "string option"

record message =
  role :: string
  parts :: "part list option"
  content :: "string option"

subsection \<open>JavaScript string idioms\<close>

text \<open>A string operand of \<^verbatim>\<open>||\<close> and \<^verbatim>\<open>if\<close> is truthy when it is defined and not empty.\<close>

definition truthy :: "string option \<Rightarrow> bool" where
  "truthy v = (case v of None \<Rightarrow> False | Some s \<Rightarrow> s \<noteq> [])"

definition js_or :: "string option \<Rightarrow> string option \<Rightarrow> string option" where
  "js_or a b = (if truthy a then a else b)"

definition or_default :: "string option \<Rightarrow> string \<Rightarrow> string" where
  "or_default a d = (case a of None \<Rightarrow> d | Some s \<Rightarrow> if s \<noteq> [] then s else d)"

text \<open>\<^verbatim>\<open>m.parts?.[0]?.text\<close>\<close>

definition parts0_text :: "message \<Rightarrow> string option" where
  "parts0_text m =
     (case parts m of
        None \<Rightarrow> None
      | Some ps \<Rightarrow> (case ps of [] \<Rightarrow> None | p # _ \<Rightarrow> part_text p))"

text \<open>\<^verbatim>\<open>s?.slice(0, n)\<close>\<close>

definition slice0 :: "nat \<Rightarrow> string option \<Rightarrow> string option" where
  "slice0 n v = map_option (take n) v"

text \<open>
  The white space and line terminators that \<^verbatim>\<open>String.prototype.trim\<close> strips, among the
  code units below 256: TAB, LF, VT, FF, CR, SP and NBSP.
\<close>

definition is_js_space :: "char \<Rightarrow> bool" where
  "is_js_space c =
     ((of_char c :: nat) \<in> {9, 10, 11, 12, 13, 32, 160})"

definition trim :: "string \<Rightarrow> string" where
  "trim s = rev (dropWhile is_js_space (rev (dropWhile is_js_space s)))"

definition isUser :: "message \<Rightarrow> bool" where
  "isUser m = (role m = ''user'')"

text \<open>\<^verbatim>\<open>xs.pop()\<close> on a fresh array: its last element, \<open>undefined\<close> when it is empty.\<close>

definition pop :: "'a list \<Rightarrow> 'a option" where
  "pop xs = (case xs of [] \<Rightarrow> None | _ # _ \<Rightarrow> Some (last xs))"

subsection \<open>The HTTP response object\<close>

datatype json_body =
    ErrorBody string "string option"
  | ChatBody chat
  | ChatWithMessages chat "dbmessage list"

datatype sse =
    TextDelta string
  | Done
  | ErrorEvent string string

datatype header_value = HText string | HNum int

record response =
  statusCode :: nat
  headers :: "(string \<times> header_value) list"
  headersSent :: bool
  jsonBody :: "json_body option"
  written :: "sse list"
  finished :: bool

definition fresh :: response where
  "fresh = \<lparr>statusCode = 200, headers = [], headersSent = False,
            jsonBody = None, written = [], finished = False\<rparr>"

text \<open>\<^verbatim>\<open>res.status(n)\<close>\<close>

definition status :: "nat \<Rightarrow> response \<Rightarrow> response" where
  "status n r = r\<lparr>statusCode := n\<rparr>"

text \<open>\<^verbatim>\<open>res.json(b)\<close>: sends the head and the body, and ends the response.\<close>

definition json :: "json_body \<Rightarrow> response \<Rightarrow> response" where
  "json b r = r\<lparr>jsonBody := Some b, headersSent := True, finished := True\<rparr>"

text \<open>\<^verbatim>\<open>res.send()\<close> with no body.\<close>

definition send :: "response \<Rightarrow> response" where
  "send r = r\<lparr>headersSent := True, finished := True\<rparr>"

text \<open>\<^verbatim>\<open>res.writeHead(n, hs)\<close>: from here on \<^verbatim>\<open>res.headersSent\<close> is true.\<close>

definition writeHead :: "nat \<Rightarrow> (string \<times> header_value) list \<Rightarrow> response \<Rightarrow> response" where
  "writeHead n hs r = r\<lparr>statusCode := n, headers := headers r @ hs, headersSent := True\<rparr>"

text \<open>\<^verbatim>\<open>res.write(frame)\<close>: an implicit head with the current status goes first when none was written.\<close>

definition write_frame :: "sse \<Rightarrow> response \<Rightarrow> response" where
  "write_frame e r = r\<lparr>written := written r @ [e], headersSent := True\<rparr>"

text \<open>\<^verbatim>\<open>res.end()\<close>\<close>

definition end_response :: "response \<Rightarrow> response" where
  "end_response r = r\<lparr>headersSent := True, finished := True\<rparr>"

subsection \<open>The statements sent to the store\<close>

datatype stmt =
    SelectChat
  | SelectMessages
  | InsertChat
  | UpdateTitle
  | DeleteChat
  | SelectExistingChat
  | InsertUserMessage
  | SelectHistory
  | InsertAssistantMessage
  | TouchChat

text \<open>
  What lies outside the program in one request: the statements of the store that fail
  for a reason of their own, and the answer of the model provider to a prompt.
  \<open>open_error\<close> is \<^verbatim>\<open>model.stream(prompt)\<close> rejecting; \<open>chunks\<close> are the values of
  \<^verbatim>\<open>chunk.content\<close> in the order the iterator yields them; \<open>stream_error\<close> is the
  iterator throwing after the last of them.
\<close>

record generation =
  open_error :: "string option"
  chunks :: "string list"
  stream_error :: "string option"

record env =
  outage :: "stmt \<Rightarrow> string option"
  gateway :: "string \<Rightarrow> generation"

definition sql :: "env \<Rightarrow> stmt \<Rightarrow> (string + 'a) \<Rightarrow> (string + 'a)" where
  "sql e s run = (case outage e s of Some err \<Rightarrow> Inl err | None \<Rightarrow> run)"

text \<open>A value stored in a \<^verbatim>\<open>VARCHAR(n)\<close> column: longer values are rejected, unless the excess is spaces.\<close>

definition varchar :: "nat \<Rightarrow> string \<Rightarrow> string + string" where
  "varchar n s =
     (if length s \<le> n then Inr s
      else if list_all (\<lambda>c. c = CHR '' '') (drop n s) then Inr (take n s)
      else Inl ''value too long for type character varying'')"

text \<open>
  The values of the \<^verbatim>\<open>INTEGER\<close> columns are the 32-bit signed integers. An id that reaches
  the store as a parameter is \<open>None\<close> when it is not an integer literal; the store rejects
  it then, and also when the integer is outside the range of the column.
\<close>

definition int4 :: "int \<Rightarrow> bool" where
  "int4 k \<longleftrightarrow> - 2147483648 \<le> k \<and> k \<le> 2147483647"

definition integer_param :: "int option \<Rightarrow> string + int" where
  "integer_param i =
     (case i of
        None \<Rightarrow> Inl ''invalid input syntax for type integer''
      | Some k \<Rightarrow> if int4 k then Inr k else Inl ''value out of range for type integer'')"

text \<open>A text that reaches the store as a parameter is rejected when it holds the character U+0000.\<close>

definition text_param :: "string \<Rightarrow> string + string" where
  "text_param s =
     (if CHR 0x00 \<in> set s then Inl ''invalid byte sequence for encoding UTF8: 0x00'' else Inr s)"

text \<open>
  \<open>chat_exists k d\<close>: \<^verbatim>\<open>WHERE id = k\<close> finds a row of \<^verbatim>\<open>chats\<close>, that is, \<open>k\<close> is a value of
  the column and the id of a chat. \<open>update_where\<close> updates exactly the rows with that id.
\<close>

definition chat_exists :: "int \<Rightarrow> db \<Rightarrow> bool" where
  "chat_exists k d = (int4 k \<and> k \<in> set (map chat_id (chats d)))"

definition update_where :: "int \<Rightarrow> (chat \<Rightarrow> chat) \<Rightarrow> chat list \<Rightarrow> chat list" where
  "update_where k f cs = map (\<lambda>c. if chat_id c = k then f c else c) cs"

text \<open>\<^verbatim>\<open>SELECT * FROM chats WHERE id = ${id}\<close>\<close>

definition select_chat :: "int option \<Rightarrow> db \<Rightarrow> string + chat list" where
  "select_chat i d =
     (case integer_param i of
        Inl err \<Rightarrow> Inl err
      | Inr k \<Rightarrow> Inr (filter (\<lambda>c. chat_id c = k) (chats d)))"

text \<open>\<^verbatim>\<open>SELECT * FROM messages WHERE chat_id = ${id} ORDER BY created_at ASC\<close>\<close>

definition select_messages :: "int option \<Rightarrow> db \<Rightarrow> string + dbmessage list" where
  "select_messages i d =
     (case integer_param i of
        Inl err \<Rightarrow> Inl err
      | Inr k \<Rightarrow> Inr (sort_key msg_created_at (filter (\<lambda>m. msg_chat_id m = k) (messages d))))"

text \<open>\<^verbatim>\<open>INSERT INTO chats (title) VALUES (${title}) RETURNING *\<close>\<close>

definition insert_chat :: "string option \<Rightarrow> db \<Rightarrow> string + (chat \<times> db)" where
  "insert_chat t d =
     (case t of
        None \<Rightarrow> Inl ''null value in column title violates not-null constraint''
      | Some s \<Rightarrow>
          (case text_param s of
             Inl err \<Rightarrow> Inl err
           | Inr s1 \<Rightarrow>
               (case varchar 255 s1 of
                  Inl err \<Rightarrow> Inl err
                | Inr s' \<Rightarrow>
                    let c = \<lparr>chat_id = chats_id_seq d, chat_title = s',
                             chat_created_at = clock d, chat_updated_at = clock d\<rparr>
                    in Inr (c, d\<lparr>chats := chats d @ [c],
                                  chats_id_seq := chats_id_seq d + 1,
                                  clock := Suc (clock d)\<rparr>))))"

text \<open>
  \<^verbatim>\<open>UPDATE chats SET title = ${title}, updated_at = NOW() WHERE id = ${id} RETURNING *\<close>.
  The parameters are checked before any row is looked at; the constraints of the column
  \<^verbatim>\<open>title\<close> only where a row is updated.
\<close>

definition update_title :: "int option \<Rightarrow> string option \<Rightarrow> db \<Rightarrow> string + (chat list \<times> db)" where
  "update_title i t d =
     (case integer_param i of
        Inl err \<Rightarrow> Inl err
      | Inr k \<Rightarrow>
          (case (case t of None \<Rightarrow> Inr None | Some s \<Rightarrow> map_sum id Some (text_param s)) of
             Inl err \<Rightarrow> Inl err
           | Inr t1 \<Rightarrow>
               if \<not> chat_exists k d then Inr ([], d)
               else
                 (case t1 of
                    None \<Rightarrow> Inl ''null value in column title violates not-null constraint''
                  | Some s \<Rightarrow>
                      (case varchar 255 s of
                         Inl err \<Rightarrow> Inl err
                       | Inr s' \<Rightarrow>
                           let cs = update_where k
                                      (\<lambda>c. c\<lparr>chat_title := s', chat_updated_at := clock d\<rparr>)
                                      (chats d)
                           in Inr (filter (\<lambda>c. chat_id c = k) cs,
                                   d\<lparr>chats := cs, clock := Suc (clock d)\<rparr>)))))"

text \<open>\<^verbatim>\<open>DELETE FROM chats WHERE id = ${id}\<close>, with \<^verbatim>\<open>ON DELETE CASCADE\<close> on \<^verbatim>\<open>messages.chat_id\<close>.\<close>

definition delete_chat :: "int option \<Rightarrow> db \<Rightarrow> string + db" where
  "delete_chat i d =
     (case integer_param i of
        Inl err \<Rightarrow> Inl err
      | Inr k \<Rightarrow>
          Inr (d\<lparr>chats := filter (\<lambda>c. chat_id c \<noteq> k) (chats d),
                 messages := filter (\<lambda>m. msg_chat_id m \<noteq> k) (messages d)\<rparr>))"

text \<open>
  \<^verbatim>\<open>INSERT INTO messages (chat_id, role, content) VALUES (${chatId}, r, ${content})\<close>;
  \<^verbatim>\<open>chat_id\<close> references \<^verbatim>\<open>chats(id)\<close>.
\<close>

definition insert_message :: "int \<Rightarrow> string \<Rightarrow> string \<Rightarrow> db \<Rightarrow> string + db" where
  "insert_message k r t d =
     (case integer_param (Some k) of
        Inl err \<Rightarrow> Inl err
      | Inr _ \<Rightarrow>
          (case text_param t of
             Inl err \<Rightarrow> Inl err
           | Inr t' \<Rightarrow>
               if \<not> chat_exists k d
               then Inl ''insert on table messages violates foreign key constraint''
               else
                 (case varchar 50 r of
                    Inl err \<Rightarrow> Inl err
                  | Inr r' \<Rightarrow>
                      Inr (d\<lparr>messages := messages d @
                                [\<lparr>msg_id = messages_id_seq d, msg_chat_id = k, msg_role = r',
                                  msg_content = t', msg_created_at = clock d\<rparr>],
                             messages_id_seq := messages_id_seq d + 1,
                             clock := Suc (clock d)\<rparr>))))"

text \<open>\<^verbatim>\<open>SELECT role, content FROM messages WHERE chat_id = ${chatId} ORDER BY created_at ASC\<close>\<close>

definition select_history :: "int \<Rightarrow> db \<Rightarrow> string + (string \<times> string) list" where
  "select_history k d =
     (case integer_param (Some k) of
        Inl err \<Rightarrow> Inl err
      | Inr _ \<Rightarrow>
          Inr (map (\<lambda>m. (msg_role m, msg_content m))
                 (sort_key msg_created_at (filter (\<lambda>m. msg_chat_id m = k) (messages d)))))"

text \<open>\<^verbatim>\<open>UPDATE chats SET updated_at = NOW() WHERE id = ${chatId}\<close>\<close>

definition touch_chat :: "int \<Rightarrow> db \<Rightarrow> string + db" where
  "touch_chat k d =
     (case integer_param (Some k) of
        Inl err \<Rightarrow> Inl err
      | Inr _ \<Rightarrow>
          if \<not> chat_exists k d then Inr d
          else Inr (d\<lparr>chats := update_where k (\<lambda>c. c\<lparr>chat_updated_at := clock d\<rparr>) (chats d),
                      clock := Suc (clock d)\<rparr>))"

subsection \<open>The conversation orchestrator: \<^verbatim>\<open>handleChatMessages\<close>\<close>

datatype variant = Server | Index2

text \<open>
  \<^verbatim>\<open>server.ts\<close> line 405: \<^verbatim>\<open>currentUserMessage.content || ""\<close>;
  \<^verbatim>\<open>index2.ts\<close> line 333: \<^verbatim>\<open>currentUserMessage.parts?.[0]?.text || currentUserMessage.content || ""\<close>.
\<close>

fun userMessageText :: "variant \<Rightarrow> message \<Rightarrow> string" where
  "userMessageText Server m = or_default (content m) []"
| "userMessageText Index2 m = or_default (js_or (parts0_text m) (content m)) []"

definition nl :: string where
  "nl = [CHR 0x0A]"

definition preamble :: string where
  "preamble = ''You are a helpful AI assistant. Here is the conversation history:'' @ nl @ nl"

text \<open>The body of the \<^verbatim>\<open>forEach\<close>: \<^verbatim>\<open>conversationContext += `${msg.role}: ${msg.content}\n\n`\<close>.\<close>

definition add_entry :: "string \<Rightarrow> string \<times> string \<Rightarrow> string" where
  "add_entry ctx msg = ctx @ fst msg @ '': '' @ snd msg @ nl @ nl"

text \<open>
  \<^verbatim>\<open>server.ts\<close> lines 422 to 426 end with \<^verbatim>\<open>conversationContext += `assistant:`\<close>;
  \<^verbatim>\<open>index2.ts\<close> lines 372 to 380 end with
  \<^verbatim>\<open>conversationContext += `user: ${userMessageText}\n\nassistant:`\<close>.
\<close>

fun conversationContext :: "variant \<Rightarrow> (string \<times> string) list \<Rightarrow> string \<Rightarrow> string" where
  "conversationContext Server allMessages userText =
     foldl add_entry preamble allMessages @ ''assistant:''"
| "conversationContext Index2 allMessages userText =
     foldl add_entry preamble allMessages @ ''user: '' @ userText @ nl @ nl @ ''assistant:''"

definition streamHeaders :: "int \<Rightarrow> (string \<times> header_value) list" where
  "streamHeaders chatId =
     [(''Content-Type'', HText ''text/event-stream''),
      (''Cache-Control'', HText ''no-cache''),
      (''Connection'', HText ''keep-alive''),
      (''Access-Control-Allow-Origin'', HText ''*''),
      (''X-Chat-Id'', HNum chatId)]"

text \<open>
  The \<^verbatim>\<open>for await (const chunk of stream)\<close> loop over the chunks that the iterator
  yields, on the pair of \<^verbatim>\<open>fullResponse\<close> and the response.
\<close>

fun relay :: "string list \<Rightarrow> string \<times> response \<Rightarrow> string \<times> response" where
  "relay [] acc = acc"
| "relay (c # cs) (fullResponse, res) =
     (if c \<noteq> []
      then relay cs (fullResponse @ c, write_frame (TextDelta c) res)
      else relay cs (fullResponse, res))"

text \<open>
  The \<^verbatim>\<open>catch\<close> block of \<^verbatim>\<open>handleChatMessages\<close>: \<^verbatim>\<open>server.ts\<close> lines 497 to 515 look
  at \<^verbatim>\<open>res.headersSent\<close>; \<^verbatim>\<open>index2.ts\<close> lines 447 to 459 always write the error frame.
\<close>

fun catch_error :: "variant \<Rightarrow> string \<Rightarrow> response \<Rightarrow> response" where
  "catch_error Server err res =
     (if headersSent res
      then end_response (write_frame (ErrorEvent ''AI Service Error'' err) res)
      else json (ErrorBody ''AI Service Error'' (Some err)) (status 500 res))"
| "catch_error Index2 err res =
     end_response (write_frame (ErrorEvent ''AI Service Error'' err) res)"

text \<open>
  What one call leaves behind: the response, the store, the prompt given to the model
  (when the call got that far) and the exception that escaped to the route, if any.
\<close>

record outcome =
  out_res :: response
  out_db :: db
  out_prompt :: "string option"
  out_thrown :: "string option"

definition caught :: "variant \<Rightarrow> string \<Rightarrow> response \<Rightarrow> db \<Rightarrow> string option \<Rightarrow> outcome" where
  "caught v err res d p =
     \<lparr>out_res = catch_error v err res, out_db = d, out_prompt = p, out_thrown = None\<rparr>"

text \<open>
  From the loop to \<^verbatim>\<open>res.end()\<close> (\<^verbatim>\<open>server.ts\<close> lines 462 to 495, \<^verbatim>\<open>index2.ts\<close> lines
  396 to 445, the same statements): relay the chunks, write the terminal frame, store the
  reply when \<^verbatim>\<open>fullResponse.trim()\<close> is not empty, touch the chat, end the response.
\<close>

definition relay_and_store ::
  "variant \<Rightarrow> env \<Rightarrow> int \<Rightarrow> generation \<Rightarrow> string \<Rightarrow> response \<Rightarrow> db \<Rightarrow> outcome" where
  "relay_and_store v e chatId g ctx res d =
     (case relay (chunks g) ([], res) of
        (fullResponse, res2) \<Rightarrow>
          (case stream_error g of
             Some err \<Rightarrow> caught v err res2 d (Some ctx)
           | None \<Rightarrow>
               let res3 = write_frame Done res2 in
               (case (if trim fullResponse \<noteq> []
                      then sql e InsertAssistantMessage
                             (insert_message chatId ''assistant'' fullResponse d)
                      else Inr d) of
                  Inl err \<Rightarrow> caught v err res3 d (Some ctx)
                | Inr d2 \<Rightarrow>
                    (case sql e TouchChat (touch_chat chatId d2) of
                       Inl err \<Rightarrow> caught v err res3 d2 (Some ctx)
                     | Inr d3 \<Rightarrow>
                         \<lparr>out_res = end_response res3, out_db = d3,
                          out_prompt = Some ctx, out_thrown = None\<rparr>))))"

text \<open>
  \<^verbatim>\<open>handleChatMessages(chatId, messages, res, isNewChat)\<close>.
  In \<^verbatim>\<open>server.ts\<close> the \<^verbatim>\<open>try\<close> starts before the user message is stored, and the head is
  written before \<^verbatim>\<open>model.stream\<close> is called. In \<^verbatim>\<open>index2.ts\<close> the two statements of the
  store come before the \<^verbatim>\<open>try\<close> (their failure escapes to the route), and the head is
  written after \<^verbatim>\<open>model.stream\<close> has returned.
\<close>

fun handleChatMessages ::
  "variant \<Rightarrow> env \<Rightarrow> int \<Rightarrow> message list \<Rightarrow> response \<Rightarrow> db \<Rightarrow> outcome" where
  "handleChatMessages Server e chatId msgs res d =
     (case pop (filter isUser msgs) of
        None \<Rightarrow>
          \<lparr>out_res = json (ErrorBody ''No user message provided'' None) (status 400 res),
           out_db = d, out_prompt = None, out_thrown = None\<rparr>
      | Some currentUserMessage \<Rightarrow>
          let userText = userMessageText Server currentUserMessage in
          (case sql e InsertUserMessage (insert_message chatId ''user'' userText d) of
             Inl err \<Rightarrow> caught Server err res d None
           | Inr d1 \<Rightarrow>
               (case sql e SelectHistory (select_history chatId d1) of
                  Inl err \<Rightarrow> caught Server err res d1 None
                | Inr allMessages \<Rightarrow>
                    let ctx = conversationContext Server allMessages userText;
                        res1 = writeHead 200 (streamHeaders chatId) res;
                        g = gateway e ctx
                    in (case open_error g of
                          Some err \<Rightarrow> caught Server err res1 d1 (Some ctx)
                        | None \<Rightarrow> relay_and_store Server e chatId g ctx res1 d1))))"
| "handleChatMessages Index2 e chatId msgs res d =
     (case pop (filter isUser msgs) of
        None \<Rightarrow>
          \<lparr>out_res = json (ErrorBody ''No user message provided'' None) (status 400 res),
           out_db = d, out_prompt = None, out_thrown = None\<rparr>
      | Some currentUserMessage \<Rightarrow>
          let userText = userMessageText Index2 currentUserMessage in
          (case sql e InsertUserMessage (insert_message chatId ''user'' userText d) of
             Inl err \<Rightarrow>
               \<lparr>out_res = res, out_db = d, out_prompt = None, out_thrown = Some err\<rparr>
           | Inr d1 \<Rightarrow>
               (case sql e SelectHistory (select_history chatId d1) of
                  Inl err \<Rightarrow>
                    \<lparr>out_res = res, out_db = d1, out_prompt = None, out_thrown = Some err\<rparr>
                | Inr allMessages \<Rightarrow>
                    let ctx = conversationContext Index2 allMessages userText;
                        g = gateway e ctx
                    in (case open_error g of
                          Some err \<Rightarrow> caught Index2 err res d1 (Some ctx)
                        | None \<Rightarrow>
                            relay_and_store Index2 e chatId g ctx
                              (writeHead 200 (streamHeaders chatId) res) d1))))"

subsection \<open>The routes\<close>

definition internal_error :: "string option \<Rightarrow> response \<Rightarrow> response" where
  "internal_error details res = json (ErrorBody ''Internal Server Error'' details) (status 500 res)"

definition not_found :: "response \<Rightarrow> response" where
  "not_found res = json (ErrorBody ''Chat not found'' None) (status 404 res)"

text \<open>\<^verbatim>\<open>app.get("/chats/:id")\<close>\<close>

definition get_chats_id :: "env \<Rightarrow> int option \<Rightarrow> db \<Rightarrow> response \<times> db" where
  "get_chats_id e i d =
     (case sql e SelectChat (select_chat i d) of
        Inl err \<Rightarrow> (internal_error None fresh, d)
      | Inr rows \<Rightarrow>
          (case rows of
             [] \<Rightarrow> (not_found fresh, d)
           | c # _ \<Rightarrow>
               (case sql e SelectMessages (select_messages i d) of
                  Inl err \<Rightarrow> (internal_error None fresh, d)
                | Inr ms \<Rightarrow> (json (ChatWithMessages c ms) fresh, d))))"

text \<open>\<^verbatim>\<open>app.post("/chats")\<close>, with \<^verbatim>\<open>const { title = "New Chat" } = req.body\<close>.\<close>

definition post_chats :: "env \<Rightarrow> string option \<Rightarrow> db \<Rightarrow> response \<times> db" where
  "post_chats e t d =
     (let title = (case t of None \<Rightarrow> ''New Chat'' | Some s \<Rightarrow> s) in
      case sql e InsertChat (insert_chat (Some title) d) of
        Inl err \<Rightarrow> (internal_error None fresh, d)
      | Inr (c, d1) \<Rightarrow> (json (ChatBody c) (status 201 fresh), d1))"

text \<open>\<^verbatim>\<open>app.put("/chats/:id")\<close>\<close>

definition put_chats_id :: "env \<Rightarrow> int option \<Rightarrow> string option \<Rightarrow> db \<Rightarrow> response \<times> db" where
  "put_chats_id e i t d =
     (case sql e UpdateTitle (update_title i t d) of
        Inl err \<Rightarrow> (internal_error None fresh, d)
      | Inr (rows, d1) \<Rightarrow>
          (case rows of
             [] \<Rightarrow> (not_found fresh, d1)
           | c # _ \<Rightarrow> (json (ChatBody c) fresh, d1)))"

text \<open>\<^verbatim>\<open>app.delete("/chats/:id")\<close>\<close>

definition delete_chats_id :: "env \<Rightarrow> int option \<Rightarrow> db \<Rightarrow> response \<times> db" where
  "delete_chats_id e i d =
     (case sql e DeleteChat (delete_chat i d) of
        Inl err \<Rightarrow> (internal_error None fresh, d)
      | Inr d1 \<Rightarrow> (send (status 204 fresh), d1))"

text \<open>
  The title of \<^verbatim>\<open>app.post("/chat")\<close>:
  \<^verbatim>\<open>firstUserMessage?.parts?.[0]?.text?.slice(0, 50) || firstUserMessage?.content?.slice(0, 50) || "New Chat"\<close>.
\<close>

definition derive_title :: "message list \<Rightarrow> string" where
  "derive_title msgs =
     (let firstUserMessage = find isUser msgs in
      or_default
        (js_or (slice0 50 (Option.bind firstUserMessage parts0_text))
               (slice0 50 (Option.bind firstUserMessage content)))
        ''New Chat'')"

text \<open>The \<^verbatim>\<open>catch\<close> of the two send routes, for an exception that escaped \<^verbatim>\<open>handleChatMessages\<close>.\<close>

definition route_catch :: "outcome \<Rightarrow> outcome" where
  "route_catch out =
     (case out_thrown out of
        None \<Rightarrow> out
      | Some err \<Rightarrow> out\<lparr>out_res := internal_error (Some err) (out_res out), out_thrown := None\<rparr>)"

text \<open>\<^verbatim>\<open>app.post("/chat")\<close>: the chat is inserted, then \<^verbatim>\<open>handleChatMessages\<close> runs.\<close>

definition post_chat :: "variant \<Rightarrow> env \<Rightarrow> message list \<Rightarrow> db \<Rightarrow> outcome" where
  "post_chat v e msgs d =
     (case sql e InsertChat (insert_chat (Some (derive_title msgs)) d) of
        Inl err \<Rightarrow>
          \<lparr>out_res = internal_error (Some err) fresh, out_db = d,
           out_prompt = None, out_thrown = None\<rparr>
      | Inr (newChat, d1) \<Rightarrow>
          route_catch (handleChatMessages v e (chat_id newChat) msgs fresh d1))"

text \<open>
  \<^verbatim>\<open>app.post("/chat/:chatId")\<close>; the argument is \<^verbatim>\<open>parseInt(chatId)\<close>, \<open>None\<close> for \<open>NaN\<close>,
  which the store rejects: the \<^verbatim>\<open>SELECT\<close> then fails and the route's \<^verbatim>\<open>catch\<close> answers 500,
  so the chat id is a number wherever \<^verbatim>\<open>existingChat\<close> is looked at.
\<close>

definition post_chat_chatId :: "variant \<Rightarrow> env \<Rightarrow> int option \<Rightarrow> message list \<Rightarrow> db \<Rightarrow> outcome" where
  "post_chat_chatId v e i msgs d =
     (case sql e SelectExistingChat (select_chat i d) of
        Inl err \<Rightarrow>
          \<lparr>out_res = internal_error (Some err) fresh, out_db = d,
           out_prompt = None, out_thrown = None\<rparr>
      | Inr existingChat \<Rightarrow>
          (case (existingChat, i) of
             (_ # _, Some currentChatId) \<Rightarrow>
               route_catch (handleChatMessages v e currentChatId msgs fresh d)
           | _ \<Rightarrow>
               \<lparr>out_res = not_found fresh, out_db = d, out_prompt = None, out_thrown = None\<rparr>))"

subsection \<open>Sequences of requests\<close>

datatype request =
    GetChat "int option"
  | PostChats "string option"
  | PutChat "int option" "string option"
  | DeleteChats "int option"
  | PostChat "message list"
  | PostChatId "int option" "message list"

fun serve :: "variant \<Rightarrow> env \<Rightarrow> request \<Rightarrow> db \<Rightarrow> response \<times> db" where
  "serve v e (GetChat i) d = get_chats_id e i d"
| "serve v e (PostChats t) d = post_chats e t d"
| "serve v e (PutChat i t) d = put_chats_id e i t d"
| "serve v e (DeleteChats i) d = delete_chats_id e i d"
| "serve v e (PostChat msgs) d = (let out = post_chat v e msgs d in (out_res out, out_db out))"
| "serve v e (PostChatId i msgs) d =
     (let out = post_chat_chatId v e i msgs d in (out_res out, out_db out))"

fun serve_all :: "variant \<Rightarrow> (env \<times> request) list \<Rightarrow> db \<Rightarrow> db" where
  "serve_all v [] d = d"
| "serve_all v ((e, r) # rs) d = serve_all v rs (snd (serve v e r d))"

text \<open>The store that \<^verbatim>\<open>initializeDatabase\<close> leaves: both tables empty, both sequences at 1.\<close>

definition initial_db :: "nat \<Rightarrow> db" where
  "initial_db t = \<lparr>chats = [], messages = [], chats_id_seq = 1, messages_id_seq = 1, clock = t\<rparr>"

subsection \<open>Consistent stores\<close>

text \<open>
  What every store reached from \<open>initial_db\<close> satisfies: the time stamps of a chat are in
  order and in the past, chat ids are unique and below the sequence, and every message
  belongs to a chat of the store.
\<close>

definition consistent :: "db \<Rightarrow> bool" where
  "consistent d \<longleftrightarrow>
     (\<forall>c \<in> set (chats d).
        chat_created_at c \<le> chat_updated_at c \<and> chat_updated_at c < clock d \<and>
        chat_id c < chats_id_seq d) \<and>
     distinct (map chat_id (chats d)) \<and>
     (\<forall>m \<in> set (messages d). chat_exists (msg_chat_id m) d)"

text \<open>
  \<open>descends d d'\<close>: each chat of \<open>d'\<close> is either newer than every chat ever created in
  \<open>d\<close>, or it is a chat of \<open>d\<close> with the creation time it had there and an update time
  that is not earlier.
\<close>

definition descends :: "db \<Rightarrow> db \<Rightarrow> bool" where
  "descends d d' \<longleftrightarrow>
     chats_id_seq d \<le> chats_id_seq d' \<and> clock d \<le> clock d' \<and>
     (\<forall>c' \<in> set (chats d').
        chats_id_seq d \<le> chat_id c' \<or>
        (\<exists>c \<in> set (chats d).
           chat_id c = chat_id c' \<and> chat_created_at c = chat_created_at c' \<and>
           chat_updated_at c \<le> chat_updated_at c'))"

definition evolves :: "db \<Rightarrow> db \<Rightarrow> bool" where
  "evolves d d' \<longleftrightarrow> (consistent d \<longrightarrow> consistent d' \<and> descends d d')"

subsection \<open>Notions used in the statements\<close>

text \<open>
  The text of a batch entry in the words of the specification: the text of the first part
  when there is one, else the flat content, else the empty string. A text that is there
  but empty counts as absent, as it does for JavaScript's \<^verbatim>\<open>||\<close>.
\<close>

definition spec_text :: "message \<Rightarrow> string" where
  "spec_text m =
     (case parts0_text m of
        Some (x # xs) \<Rightarrow> x # xs
      | _ \<Rightarrow> (case content m of Some s \<Rightarrow> s | None \<Rightarrow> []))"

text \<open>The columns of the chats that no request may change once the chat exists.\<close>

definition static_rows :: "db \<Rightarrow> (int \<times> string \<times> nat) list" where
  "static_rows d = map (\<lambda>c. (chat_id c, chat_title c, chat_created_at c)) (chats d)"

text \<open>A completed exchange: the last frame written to the response is the terminal marker.\<close>

definition completed :: "response \<Rightarrow> bool" where
  "completed r \<longleftrightarrow> written r \<noteq> [] \<and> last (written r) = Done"

text \<open>An answered request: the response is ended and holds a JSON body or at least one frame.\<close>

definition answered :: "response \<Rightarrow> bool" where
  "answered r \<longleftrightarrow> finished r \<and> (jsonBody r \<noteq> None \<or> written r \<noteq> [])"

subsection \<open>Sample inputs\<close>

text \<open>A store with the single chat that \<^verbatim>\<open>POST /chats {title: "Test"}\<close> creates at time 0.\<close>

definition sample_db :: db where
  "sample_db =
     \<lparr>chats = [\<lparr>chat_id = 1, chat_title = ''Test'', chat_created_at = 0, chat_updated_at = 0\<rparr>],
      messages = [], chats_id_seq = 2, messages_id_seq = 1, clock = 1\<rparr>"

text \<open>A store that never fails and a provider that answers every prompt with the chunks \<open>cs\<close>.\<close>

definition provider :: "string list \<Rightarrow> env" where
  "provider cs =
     \<lparr>outage = (\<lambda>_. None),
      gateway = (\<lambda>_. \<lparr>open_error = None, chunks = cs, stream_error = None\<rparr>)\<rparr>"

text \<open>A provider that rejects \<^verbatim>\<open>model.stream\<close>.\<close>

definition provider_down :: env where
  "provider_down =
     \<lparr>outage = (\<lambda>_. None),
      gateway = (\<lambda>_. \<lparr>open_error = Some ''fetch failed'', chunks = [], stream_error = None\<rparr>)\<rparr>"

text \<open>\<^verbatim>\<open>{role: "user", content: s}\<close> and \<^verbatim>\<open>{role: "user", parts: [{type: "text", text: s}]}\<close>.\<close>

definition user_content :: "string \<Rightarrow> message" where
  "user_content s = \<lparr>role = ''user'', parts = None, content = Some s\<rparr>"

definition user_parts :: "string \<Rightarrow> message" where
  "user_parts s =
     \<lparr>role = ''user'', parts = Some [\<lparr>part_type = ''text'', part_text = Some s\<rparr>], content = None\<rparr>"

text \<open>\<^verbatim>\<open>{role: "assistant", content: s}\<close>\<close>

definition assistant_only :: "string \<Rightarrow> message" where
  "assistant_only s = \<lparr>role = ''assistant'', parts = None, content = Some s\<rparr>"

section \<open>Properties\<close>

subsection \<open>The relay loop\<close>

lemma relay_acc: "fst (relay cs (acc, res)) = acc @ concat cs"
  by (induction cs arbitrary: acc res) simp_all

lemma relay_written:
  "written (snd (relay cs (acc, res))) = written res @ map TextDelta (filter (\<lambda>c. c \<noteq> []) cs)"
  by (induction cs arbitrary: acc res) (simp_all add: write_frame_def)

lemma relay_drop_empty: "relay (filter (\<lambda>c. c \<noteq> []) cs) st = relay cs st"
proof (induction cs arbitrary: st)
  case Nil
  show ?case by simp
next
  case (Cons c cs)
  obtain acc res where st: "st = (acc, res)" by (cases st)
  show ?case using Cons.IH by (simp add: st)
qed

lemma sql_gateway: "sql (e\<lparr>gateway := G\<rparr>) s x = sql e s x"
  by (simp add: sql_def)

lemma relay_and_store_drop_empty:
  "relay_and_store v (e\<lparr>gateway := G\<rparr>) k
     (g\<lparr>chunks := filter (\<lambda>c. c \<noteq> []) (chunks g)\<rparr>) ctx res d
   = relay_and_store v e k g ctx res d"
  by (simp add: relay_and_store_def relay_drop_empty sql_gateway Let_def
           split: prod.splits option.splits sum.splits)

lemma handleChatMessages_drop_empty:
  "handleChatMessages v
     (e\<lparr>gateway := \<lambda>p. (gateway e p)\<lparr>chunks := filter (\<lambda>c. c \<noteq> []) (chunks (gateway e p))\<rparr>\<rparr>)
     k msgs res d
   = handleChatMessages v e k msgs res d"
  by (cases v)
     (simp_all add: relay_and_store_drop_empty sql_gateway Let_def split: option.splits sum.splits)

text \<open>
  Claim C10. A chunk whose content is the empty string gets no text-delta frame and adds
  nothing to the accumulated text, in both revisions: the call behaves in every respect
  (frames, stored rows, prompt) as if the provider had produced the stream without its
  empty chunks; the loop writes one frame for each chunk that is not empty, in order, and
  the accumulated text is the concatenation of all chunks, which the empty ones leave as
  it is.
\<close>

theorem empty_fragments_dropped:
  "handleChatMessages v
     (e\<lparr>gateway := \<lambda>p. (gateway e p)\<lparr>chunks := filter (\<lambda>c. c \<noteq> []) (chunks (gateway e p))\<rparr>\<rparr>)
     k msgs res d
   = handleChatMessages v e k msgs res d
   \<and> written (snd (relay cs (acc, res)))
       = written res @ map TextDelta (filter (\<lambda>c. c \<noteq> []) cs)
   \<and> fst (relay cs (acc, res)) = acc @ concat cs
   \<and> fst (relay cs (acc, res)) = acc @ concat (filter (\<lambda>c. c \<noteq> []) cs)"
proof -
  have "concat (filter (\<lambda>c. c \<noteq> []) cs) = concat cs" for cs :: "string list"
    by (induction cs) simp_all
  then show ?thesis
    by (simp add: handleChatMessages_drop_empty relay_written relay_acc)
qed

theorem empty_fragments_dropped_witness:
  "written (snd (relay [''A'', [], ''B''] ([], fresh))) = [TextDelta ''A'', TextDelta ''B'']
   \<and> fst (relay [''A'', [], ''B''] ([], fresh)) = ''AB''"
  using empty_fragments_dropped [of Server "provider []" 1 "[]" fresh sample_db "[''A'', [], ''B'']" "[]"]
  by (simp add: fresh_def)

subsection \<open>Consistency of the store is kept by every request\<close>

lemma integer_param_Inr: "integer_param i = Inr k \<Longrightarrow> i = Some k \<and> int4 k"
  by (auto simp: integer_param_def split: option.splits if_splits)

lemma integer_param_ok: "int4 k \<Longrightarrow> integer_param (Some k) = Inr k"
  by (simp add: integer_param_def)

lemma integer_param_exists: "chat_exists k d \<Longrightarrow> integer_param (Some k) = Inr k"
  by (simp add: integer_param_def chat_exists_def)

lemma text_param_Inr: "text_param s = Inr s' \<Longrightarrow> s' = s \<and> CHR 0x00 \<notin> set s"
  by (auto simp: text_param_def split: if_splits)

lemma text_param_ok: "CHR 0x00 \<notin> set s \<Longrightarrow> text_param s = Inr s"
  by (simp add: text_param_def)

lemma descends_refl: "descends d d"
  by (auto simp: descends_def)

lemma descends_trans:
  assumes "descends d d'" and "descends d' d''"
  shows "descends d d''"
  unfolding descends_def
proof (intro conjI ballI)
  show "chats_id_seq d \<le> chats_id_seq d''"
    using assms by (simp add: descends_def)
next
  show "clock d \<le> clock d''"
    using assms by (simp add: descends_def)
next
  fix c'' assume c'': "c'' \<in> set (chats d'')"
  from assms(2) c'' consider "chats_id_seq d' \<le> chat_id c''"
    | c' where "c' \<in> set (chats d')" "chat_id c' = chat_id c''"
        "chat_created_at c' = chat_created_at c''" "chat_updated_at c' \<le> chat_updated_at c''"
    unfolding descends_def by blast
  then show "chats_id_seq d \<le> chat_id c'' \<or>
        (\<exists>c \<in> set (chats d).
           chat_id c = chat_id c'' \<and> chat_created_at c = chat_created_at c'' \<and>
           chat_updated_at c \<le> chat_updated_at c'')"
  proof cases
    case 1
    moreover have "chats_id_seq d \<le> chats_id_seq d'" using assms(1) by (simp add: descends_def)
    ultimately show ?thesis by simp
  next
    case 2
    from assms(1) 2(1) consider "chats_id_seq d \<le> chat_id c'"
      | c where "c \<in> set (chats d)" "chat_id c = chat_id c'"
          "chat_created_at c = chat_created_at c'" "chat_updated_at c \<le> chat_updated_at c'"
      unfolding descends_def by blast
    then show ?thesis
    proof cases
      case 1
      then show ?thesis using 2 by simp
    next
      case 2
      have "chat_id c = chat_id c''" "chat_created_at c = chat_created_at c''"
           "chat_updated_at c \<le> chat_updated_at c''"
        using 2 \<open>chat_id c' = chat_id c''\<close> \<open>chat_created_at c' = chat_created_at c''\<close>
              \<open>chat_updated_at c' \<le> chat_updated_at c''\<close> by simp_all
      with 2(1) show ?thesis by blast
    qed
  qed
qed

lemma evolves_refl: "evolves d d"
  by (simp add: evolves_def descends_refl)

lemma evolves_trans: "evolves d d' \<Longrightarrow> evolves d' d'' \<Longrightarrow> evolves d d''"
  unfolding evolves_def using descends_trans by blast

lemma sql_Inr: "sql e s x = Inr y \<Longrightarrow> x = Inr y"
  by (simp add: sql_def split: option.splits)

lemma insert_chat_Inr:
  assumes "insert_chat t d = Inr (c, d')"
  shows "chat_id c = chats_id_seq d \<and> chat_created_at c = clock d \<and> chat_updated_at c = clock d
         \<and> d' = d\<lparr>chats := chats d @ [c], chats_id_seq := chats_id_seq d + 1,
                             clock := Suc (clock d)\<rparr>"
  using assms by (auto simp: insert_chat_def Let_def split: option.splits sum.splits)

lemma insert_chat_evolves:
  assumes "insert_chat t d = Inr (c, d')"
  shows "evolves d d'"
proof -
  note f = insert_chat_Inr [OF assms]
  have d': "chats d' = chats d @ [c]" "chats_id_seq d' = chats_id_seq d + 1"
    "clock d' = Suc (clock d)" "messages d' = messages d"
    by (subst conjunct2 [OF conjunct2 [OF conjunct2 [OF f]]], simp)+
  show ?thesis
    unfolding evolves_def
  proof (intro impI conjI)
    assume con: "consistent d"
    show "consistent d'"
      using con f unfolding consistent_def chat_exists_def d'
      by (fastforce simp: less_Suc_eq)
    show "descends d d'"
      unfolding descends_def d' using f by auto
  qed
qed

lemma update_where_ids:
  assumes "\<And>c. chat_id (f c) = chat_id c"
  shows "map chat_id (update_where k f cs) = map chat_id cs"
  by (induction cs) (simp_all add: update_where_def assms)

lemma update_where_mem:
  "c' \<in> set (update_where k f cs) \<Longrightarrow>
     c' \<in> set cs \<and> chat_id c' \<noteq> k \<or> (\<exists>c \<in> set cs. chat_id c = k \<and> c' = f c)"
  by (auto simp: update_where_def)

lemma stamp_evolves:
  assumes id: "\<And>c. chat_id (f c) = chat_id c"
    and cr: "\<And>c. chat_created_at (f c) = chat_created_at c"
    and up: "\<And>c. chat_updated_at (f c) = clock d"
  shows "evolves d (d\<lparr>chats := update_where k f (chats d), clock := Suc (clock d)\<rparr>)"
  unfolding evolves_def
proof (intro impI conjI)
  let ?d' = "d\<lparr>chats := update_where k f (chats d), clock := Suc (clock d)\<rparr>"
  assume con: "consistent d"
  have ids: "map chat_id (chats ?d') = map chat_id (chats d)"
    by (simp add: update_where_ids id)
  have row: "chat_created_at c' \<le> chat_updated_at c' \<and> chat_updated_at c' < clock ?d' \<and>
        chat_id c' < chats_id_seq ?d' \<and>
        (\<exists>c \<in> set (chats d).
           chat_id c = chat_id c' \<and> chat_created_at c = chat_created_at c' \<and>
           chat_updated_at c \<le> chat_updated_at c')"
    if "c' \<in> set (chats ?d')" for c'
  proof -
    from that have "c' \<in> set (update_where k f (chats d))" by simp
    then consider "c' \<in> set (chats d)" | c where "c \<in> set (chats d)" "c' = f c"
      using update_where_mem by blast
    then show ?thesis
    proof cases
      case 1
      then show ?thesis using con unfolding consistent_def by (auto simp: less_Suc_eq)
    next
      case 2
      have "chat_created_at c \<le> chat_updated_at c" "chat_updated_at c < clock d"
        "chat_id c < chats_id_seq d"
        using con 2(1) unfolding consistent_def by auto
      then show ?thesis using 2 by (auto simp: id cr up intro!: bexI [of _ c])
    qed
  qed
  show "consistent ?d'"
    unfolding consistent_def chat_exists_def ids
    using row con unfolding consistent_def chat_exists_def by auto
  show "descends d ?d'"
    unfolding descends_def using row by auto
qed

lemma update_title_evolves:
  assumes "update_title i t d = Inr (rows, d')"
  shows "evolves d d'"
proof -
  from assms consider "d' = d"
    | k s where "d' = d\<lparr>chats := update_where k
                        (\<lambda>c. c\<lparr>chat_title := s, chat_updated_at := clock d\<rparr>) (chats d),
                      clock := Suc (clock d)\<rparr>"
    by (auto simp: update_title_def Let_def split: option.splits sum.splits if_splits)
  then show ?thesis
  proof cases
    case 1
    then show ?thesis by (simp add: evolves_refl)
  next
    case 2
    show ?thesis unfolding 2 by (rule stamp_evolves) simp_all
  qed
qed

lemma touch_chat_evolves:
  assumes "touch_chat k d = Inr d'"
  shows "evolves d d'"
proof (cases "chat_exists k d")
  case True
  then have "d' = d\<lparr>chats := update_where k (\<lambda>c. c\<lparr>chat_updated_at := clock d\<rparr>) (chats d),
                  clock := Suc (clock d)\<rparr>"
    using assms by (simp add: touch_chat_def integer_param_exists)
  then show ?thesis by (simp only:) (rule stamp_evolves, simp_all)
next
  case False
  then show ?thesis
    using assms by (auto simp: touch_chat_def evolves_refl split: sum.splits)
qed

lemma delete_chat_evolves:
  assumes "delete_chat i d = Inr d'"
  shows "evolves d d'"
proof -
  from assms obtain k where d': "d' = d\<lparr>chats := filter (\<lambda>c. chat_id c \<noteq> k) (chats d),
                 messages := filter (\<lambda>m. msg_chat_id m \<noteq> k) (messages d)\<rparr>"
    by (auto simp: delete_chat_def split: sum.splits)
  show ?thesis
    unfolding evolves_def consistent_def descends_def chat_exists_def d'
    by (auto simp: distinct_map_filter)
qed

lemma insert_message_Inr:
  assumes "insert_message k r t d = Inr d'"
  shows "chat_exists k d \<and> CHR 0x00 \<notin> set t \<and>
         (\<exists>r'. varchar 50 r = Inr r' \<and>
           d' = d\<lparr>messages := messages d @
                       [\<lparr>msg_id = messages_id_seq d, msg_chat_id = k, msg_role = r',
                         msg_content = t, msg_created_at = clock d\<rparr>],
                    messages_id_seq := messages_id_seq d + 1,
                    clock := Suc (clock d)\<rparr>)"
  using assms
  by (auto simp: insert_message_def split: if_splits sum.splits dest!: text_param_Inr)

lemma insert_message_evolves:
  assumes "insert_message k r t d = Inr d'"
  shows "evolves d d'"
proof -
  from insert_message_Inr [OF assms] obtain r' where ex: "chat_exists k d"
    and d': "d' = d\<lparr>messages := messages d @
                       [\<lparr>msg_id = messages_id_seq d, msg_chat_id = k, msg_role = r',
                         msg_content = t, msg_created_at = clock d\<rparr>],
                    messages_id_seq := messages_id_seq d + 1,
                    clock := Suc (clock d)\<rparr>"
    by blast
  show ?thesis
    unfolding evolves_def consistent_def descends_def d'
    using ex by (auto simp: chat_exists_def less_Suc_eq)
qed

lemma relay_and_store_evolves: "evolves d (out_db (relay_and_store v e k g ctx res d))"
  by (auto simp: relay_and_store_def caught_def Let_def evolves_refl
           split: prod.splits option.splits sum.splits if_splits
           dest!: sql_Inr
           intro: evolves_trans insert_message_evolves touch_chat_evolves)

lemma handleChatMessages_evolves: "evolves d (out_db (handleChatMessages v e k msgs res d))"
  by (cases v)
     (auto simp: caught_def Let_def evolves_refl
           split: prod.splits option.splits sum.splits if_splits
           dest!: sql_Inr
           intro: evolves_trans insert_message_evolves relay_and_store_evolves)

lemma serve_evolves: "evolves d (snd (serve v e r d))"
  by (cases r)
     (auto simp: get_chats_id_def post_chats_def put_chats_id_def delete_chats_id_def
                 post_chat_def post_chat_chatId_def route_catch_def Let_def evolves_refl
           split: prod.splits option.splits sum.splits if_splits list.splits
           dest!: sql_Inr
           intro: evolves_trans insert_chat_evolves update_title_evolves delete_chat_evolves
                  handleChatMessages_evolves)

lemma serve_all_evolves: "evolves d (serve_all v rs d)"
proof (induction rs arbitrary: d)
  case Nil
  show ?case by (simp add: evolves_refl)
next
  case (Cons r rs)
  obtain e q where r: "r = (e, q)" by (cases r)
  show ?case
    unfolding r serve_all.simps
    by (rule evolves_trans [OF serve_evolves Cons.IH])
qed

lemma consistent_initial: "consistent (initial_db t)"
  by (simp add: consistent_def initial_db_def)


lemma relay_sent:
  "headersSent r \<Longrightarrow>
   relay cs (acc, r) =
     (acc @ concat cs, r\<lparr>written := written r @ map TextDelta (filter (\<lambda>c. c \<noteq> []) cs)\<rparr>)"
proof (induction cs arbitrary: acc r)
  case Nil
  show ?case by simp
next
  case (Cons c cs)
  have "headersSent (write_frame (TextDelta c) r)" by (simp add: write_frame_def)
  from Cons.IH [OF this] Cons.IH [OF Cons.prems] Cons.prems
  show ?case by (cases r) (simp add: write_frame_def)
qed

lemma sql_up: "outage e = (\<lambda>_. None) \<Longrightarrow> sql e s x = x"
  by (simp add: sql_def)

lemma pop_last: "xs \<noteq> [] \<Longrightarrow> pop xs = Some (last xs)"
  by (cases xs) (simp_all add: pop_def)

lemma varchar_short: "length s \<le> n \<Longrightarrow> varchar n s = Inr s"
  by (simp add: varchar_def)

lemma insert_message_ok:
  "chat_exists k d \<Longrightarrow> CHR 0x00 \<notin> set t \<Longrightarrow> length r \<le> 50 \<Longrightarrow>
   insert_message k r t d =
     Inr (d\<lparr>messages := messages d @
               [\<lparr>msg_id = messages_id_seq d, msg_chat_id = k, msg_role = r,
                 msg_content = t, msg_created_at = clock d\<rparr>],
            messages_id_seq := messages_id_seq d + 1,
            clock := Suc (clock d)\<rparr>)"
  by (simp add: insert_message_def varchar_short integer_param_exists text_param_ok)

lemma touch_chat_ok:
  "chat_exists k d \<Longrightarrow>
   touch_chat k d =
     Inr (d\<lparr>chats := update_where k (\<lambda>c. c\<lparr>chat_updated_at := clock d\<rparr>) (chats d),
            clock := Suc (clock d)\<rparr>)"
  by (simp add: touch_chat_def integer_param_exists)

lemma relay_and_store_success:
  assumes "outage e = (\<lambda>_. None)" and "stream_error g = None" and "chat_exists k d"
    and "headersSent res" and "CHR 0x00 \<notin> set (concat (chunks g))"
  shows "relay_and_store v e k g ctx res d =
     (let full = concat (chunks g);
          d2 = (if trim full \<noteq> []
                then d\<lparr>messages := messages d @
                         [\<lparr>msg_id = messages_id_seq d, msg_chat_id = k, msg_role = ''assistant'',
                           msg_content = full, msg_created_at = clock d\<rparr>],
                       messages_id_seq := messages_id_seq d + 1,
                       clock := Suc (clock d)\<rparr>
                else d)
      in \<lparr>out_res = res\<lparr>written := written res @
                                 map TextDelta (filter (\<lambda>c. c \<noteq> []) (chunks g)) @ [Done],
                            finished := True\<rparr>,
          out_db = d2\<lparr>chats := update_where k (\<lambda>c. c\<lparr>chat_updated_at := clock d2\<rparr>) (chats d2),
                      clock := Suc (clock d2)\<rparr>,
          out_prompt = Some ctx, out_thrown = None\<rparr>)"
proof -
  have ex2: "chat_exists k (d\<lparr>messages := ms, messages_id_seq := n, clock := t\<rparr>)" for ms n t
    using assms(3) by (simp add: chat_exists_def)
  show ?thesis
    using assms
    by (cases res)
       (simp add: relay_and_store_def relay_sent sql_up insert_message_ok touch_chat_ok ex2
                  Let_def write_frame_def end_response_def)
qed


lemma handleChatMessages_success:
  assumes user: "filter isUser msgs \<noteq> []"
    and chat: "chat_exists k d"
    and store: "outage e = (\<lambda>_. None)"
    and opens: "\<And>p. open_error (gateway e p) = None"
    and streams: "\<And>p. stream_error (gateway e p) = None"
    and asked: "CHR 0x00 \<notin> set (userMessageText v (last (filter isUser msgs)))"
    and replied: "\<And>p. CHR 0x00 \<notin> set (concat (chunks (gateway e p)))"
  shows "handleChatMessages v e k msgs fresh d =
     (let userText = userMessageText v (last (filter isUser msgs));
          d1 = d\<lparr>messages := messages d @
                    [\<lparr>msg_id = messages_id_seq d, msg_chat_id = k, msg_role = ''user'',
                      msg_content = userText, msg_created_at = clock d\<rparr>],
                  messages_id_seq := messages_id_seq d + 1,
                  clock := Suc (clock d)\<rparr>;
          ctx = conversationContext v
                  (map (\<lambda>m. (msg_role m, msg_content m))
                     (sort_key msg_created_at (filter (\<lambda>m. msg_chat_id m = k) (messages d1))))
                  userText;
          full = concat (chunks (gateway e ctx));
          d2 = (if trim full \<noteq> []
                then d1\<lparr>messages := messages d1 @
                         [\<lparr>msg_id = messages_id_seq d1, msg_chat_id = k, msg_role = ''assistant'',
                           msg_content = full, msg_created_at = clock d1\<rparr>],
                       messages_id_seq := messages_id_seq d1 + 1,
                       clock := Suc (clock d1)\<rparr>
                else d1)
      in \<lparr>out_res = \<lparr>statusCode = 200, headers = streamHeaders k, headersSent = True,
                     jsonBody = None,
                     written = map TextDelta (filter (\<lambda>c. c \<noteq> []) (chunks (gateway e ctx)))
                               @ [Done],
                     finished = True\<rparr>,
          out_db = d2\<lparr>chats := update_where k (\<lambda>c. c\<lparr>chat_updated_at := clock d2\<rparr>) (chats d2),
                      clock := Suc (clock d2)\<rparr>,
          out_prompt = Some ctx, out_thrown = None\<rparr>)"
proof -
  have ex1: "chat_exists k (d\<lparr>messages := ms, messages_id_seq := n, clock := t\<rparr>)" for ms n t
    using chat by (simp add: chat_exists_def)
  have sent: "headersSent (writeHead 200 (streamHeaders k) fresh)"
    by (simp add: writeHead_def)
  note ras = relay_and_store_success [OF store streams ex1 sent replied]
  note ip = integer_param_exists [OF chat]
  show ?thesis
  proof (cases v)
    case Server
    show ?thesis
      using asked unfolding Server
      by (simp add: pop_last [OF user] sql_up [OF store] insert_message_ok [OF chat]
            select_history_def ip opens ras Let_def)
         (simp add: writeHead_def fresh_def)
  next
    case Index2
    show ?thesis
      using asked unfolding Index2
      by (simp add: pop_last [OF user] sql_up [OF store] insert_message_ok [OF chat]
            select_history_def ip opens ras Let_def)
         (simp add: writeHead_def fresh_def)
  qed
qed

subsection \<open>Evaluation of the model on concrete inputs\<close>

lemmas run_simps =
  int4_def integer_param_def text_param_def pop_def isUser_def user_content_def user_parts_def sql_def provider_def provider_down_def
  insert_message_def chat_exists_def sample_db_def varchar_def select_history_def
  preamble_def add_entry_def nl_def writeHead_def streamHeaders_def relay_and_store_def
  write_frame_def trim_def is_js_space_def touch_chat_def update_where_def end_response_def
  fresh_def Let_def caught_def json_def status_def or_default_def js_or_def truthy_def
  parts0_text_def

subsection \<open>Relay of the fragments (claims C1 and C6)\<close>

text \<open>
  Claim C1, as amended. In a send-message call whose batch has a user entry, on an existing
  chat, with a provider that opens and ends its stream normally and a store that takes
  every statement of the call (no outage, the sequence of message ids has two values
  left, and neither the user text nor the generated text holds the character U+0000,
  which the store rejects): the frames written are one text-delta frame for each fragment that is not empty, in the
  order of generation, followed by the terminal \<^verbatim>\<open>[DONE]\<close> frame; and when the
  concatenation of the fragments is more than white space, the call appends to the
  messages of the store exactly the user message and then an assistant message whose
  content is the concatenation of all fragments from left to right.
\<close>

theorem fragments_relayed_in_order:
  assumes user: "filter isUser msgs \<noteq> []"
    and chat: "chat_exists k d"
    and store: "outage e = (\<lambda>_. None)"
    and opens: "\<And>p. open_error (gateway e p) = None"
    and streams: "\<And>p. stream_error (gateway e p) = None"
    and asked: "CHR 0x00 \<notin> set (userMessageText v (last (filter isUser msgs)))"
    and replied: "\<And>p. CHR 0x00 \<notin> set (concat (chunks (gateway e p)))"
    and ids: "int4 (messages_id_seq d + 1)"
  shows "case out_prompt (handleChatMessages v e k msgs fresh d) of
           None \<Rightarrow> False
         | Some p \<Rightarrow>
             written (out_res (handleChatMessages v e k msgs fresh d))
               = map TextDelta (filter (\<lambda>c. c \<noteq> []) (chunks (gateway e p))) @ [Done]
             \<and> (trim (concat (chunks (gateway e p))) \<noteq> [] \<longrightarrow>
                  messages (out_db (handleChatMessages v e k msgs fresh d))
                    = messages d @
                      [\<lparr>msg_id = messages_id_seq d, msg_chat_id = k, msg_role = ''user'',
                        msg_content = userMessageText v (last (filter isUser msgs)),
                        msg_created_at = clock d\<rparr>,
                       \<lparr>msg_id = messages_id_seq d + 1, msg_chat_id = k, msg_role = ''assistant'',
                        msg_content = concat (chunks (gateway e p)),
                        msg_created_at = Suc (clock d)\<rparr>])"
  by (simp add: handleChatMessages_success [OF user chat store opens streams asked replied]
                Let_def)

theorem fragments_relayed_in_order_witness:
  "written (out_res (handleChatMessages Server (provider [''A'', ''B'', ''C'', ''D'', ''E'']) 1
                       [user_content ''Hello''] fresh sample_db))
     = [TextDelta ''A'', TextDelta ''B'', TextDelta ''C'', TextDelta ''D'', TextDelta ''E'', Done]
   \<and> messages (out_db (handleChatMessages Server (provider [''A'', ''B'', ''C'', ''D'', ''E'']) 1
                       [user_content ''Hello''] fresh sample_db))
     = [\<lparr>msg_id = 1, msg_chat_id = 1, msg_role = ''user'', msg_content = ''Hello'',
         msg_created_at = 1\<rparr>,
        \<lparr>msg_id = 2, msg_chat_id = 1, msg_role = ''assistant'', msg_content = ''ABCDE'',
         msg_created_at = 2\<rparr>]"
  using fragments_relayed_in_order
          [of "[user_content ''Hello'']" 1 sample_db "provider [''A'', ''B'', ''C'', ''D'', ''E'']" Server]
  by (simp add: run_simps)

text \<open>
  The claim as stated fails where a fragment is empty: of the fragments \<open>A\<close>, the empty
  string and \<open>B\<close>, only two get a frame. It fails too where the fragments are white
  space only: no assistant message is stored.
\<close>

theorem every_fragment_an_event_counterexample:
  "written (out_res (handleChatMessages Server (provider [''A'', [], ''B'']) 1
                       [user_content ''Hello''] fresh sample_db))
     \<noteq> map TextDelta [''A'', [], ''B''] @ [Done]
   \<and> filter (\<lambda>m. msg_role m = ''assistant'')
        (messages (out_db (handleChatMessages Server (provider ['' '', '' '']) 1
                       [user_content ''Hello''] fresh sample_db))) = []"
  by (simp add: run_simps)

text \<open>
  Claim C6, as amended. When the stream completes normally and the store takes every
  statement of the call (the conditions of the theorem above), the last frame written is the terminal marker and the response is ended; the messages
  appended are the user message and, if and only if the accumulated text has a character
  that is not white space, one assistant message holding it; and the chat's
  \<^verbatim>\<open>updated_at\<close> is set in both cases, to the time of the \<^verbatim>\<open>UPDATE\<close>.
\<close>

theorem completion_stores_reply:
  assumes user: "filter isUser msgs \<noteq> []"
    and chat: "chat_exists k d"
    and store: "outage e = (\<lambda>_. None)"
    and opens: "\<And>p. open_error (gateway e p) = None"
    and streams: "\<And>p. stream_error (gateway e p) = None"
    and asked: "CHR 0x00 \<notin> set (userMessageText v (last (filter isUser msgs)))"
    and replied: "\<And>p. CHR 0x00 \<notin> set (concat (chunks (gateway e p)))"
    and ids: "int4 (messages_id_seq d + 1)"
  shows "case out_prompt (handleChatMessages v e k msgs fresh d) of
           None \<Rightarrow> False
         | Some p \<Rightarrow>
             last (written (out_res (handleChatMessages v e k msgs fresh d))) = Done
             \<and> finished (out_res (handleChatMessages v e k msgs fresh d))
             \<and> messages (out_db (handleChatMessages v e k msgs fresh d))
                 = messages d @
                   [\<lparr>msg_id = messages_id_seq d, msg_chat_id = k, msg_role = ''user'',
                     msg_content = userMessageText v (last (filter isUser msgs)),
                     msg_created_at = clock d\<rparr>] @
                   (if trim (concat (chunks (gateway e p))) \<noteq> []
                    then [\<lparr>msg_id = messages_id_seq d + 1, msg_chat_id = k,
                           msg_role = ''assistant'',
                           msg_content = concat (chunks (gateway e p)),
                           msg_created_at = Suc (clock d)\<rparr>]
                    else [])
             \<and> chats (out_db (handleChatMessages v e k msgs fresh d))
                 = update_where k
                     (\<lambda>c. c\<lparr>chat_updated_at :=
                              (if trim (concat (chunks (gateway e p))) \<noteq> []
                               then clock d + 2 else clock d + 1)\<rparr>)
                     (chats d)"
  by (simp add: handleChatMessages_success [OF user chat store opens streams asked replied]
                Let_def)

theorem completion_stores_reply_witness:
  "last (written (out_res (handleChatMessages Server (provider [''Hi'', '' there'']) 1
                             [user_content ''Hello''] fresh sample_db))) = Done
   \<and> finished (out_res (handleChatMessages Server (provider [''Hi'', '' there'']) 1
                             [user_content ''Hello''] fresh sample_db))
   \<and> messages (out_db (handleChatMessages Server (provider [''Hi'', '' there'']) 1
                             [user_content ''Hello''] fresh sample_db))
       = [\<lparr>msg_id = 1, msg_chat_id = 1, msg_role = ''user'', msg_content = ''Hello'',
           msg_created_at = 1\<rparr>,
          \<lparr>msg_id = 2, msg_chat_id = 1, msg_role = ''assistant'', msg_content = ''Hi there'',
           msg_created_at = 2\<rparr>]
   \<and> chats (out_db (handleChatMessages Server (provider [''Hi'', '' there'']) 1
                             [user_content ''Hello''] fresh sample_db))
       = [\<lparr>chat_id = 1, chat_title = ''Test'', chat_created_at = 0, chat_updated_at = 3\<rparr>]"
  using completion_stores_reply
          [of "[user_content ''Hello'']" 1 sample_db "provider [''Hi'', '' there'']" Server]
  by (simp add: run_simps)

text \<open>
  The claim as stated says the text is stored whenever it is not empty; a reply of one
  space is not empty, the stream completes, and no assistant message is stored.
\<close>

theorem blank_reply_not_stored_counterexample:
  "fst (relay (chunks (gateway (provider ['' '']) [])) ([], fresh)) \<noteq> []
   \<and> last (written (out_res (handleChatMessages Server (provider ['' '']) 1
                             [user_content ''Hello''] fresh sample_db))) = Done
   \<and> messages (out_db (handleChatMessages Server (provider ['' '']) 1
                             [user_content ''Hello''] fresh sample_db))
       = [\<lparr>msg_id = 1, msg_chat_id = 1, msg_role = ''user'', msg_content = ''Hello'',
           msg_created_at = 1\<rparr>]"
  by (simp add: run_simps)

subsection \<open>A batch with no user message (claim C2)\<close>

lemma insert_chat_ok:
  "CHR 0x00 \<notin> set s \<Longrightarrow> length s \<le> 255 \<Longrightarrow>
   insert_chat (Some s) d =
     Inr (\<lparr>chat_id = chats_id_seq d, chat_title = s,
           chat_created_at = clock d, chat_updated_at = clock d\<rparr>,
          d\<lparr>chats := chats d @ [\<lparr>chat_id = chats_id_seq d, chat_title = s,
                                  chat_created_at = clock d, chat_updated_at = clock d\<rparr>],
            chats_id_seq := chats_id_seq d + 1,
            clock := Suc (clock d)\<rparr>)"
  by (simp add: insert_chat_def text_param_ok varchar_short Let_def)

lemma handleChatMessages_no_user:
  "filter isUser msgs = [] \<Longrightarrow>
   handleChatMessages v e k msgs res d =
     \<lparr>out_res = json (ErrorBody ''No user message provided'' None) (status 400 res),
      out_db = d, out_prompt = None, out_thrown = None\<rparr>"
  by (cases v) (simp_all add: pop_def)

lemma find_isUser_None: "filter isUser msgs = [] \<Longrightarrow> find isUser msgs = None"
  by (simp add: find_None_iff filter_empty_conv)

lemma derive_title_no_user: "filter isUser msgs = [] \<Longrightarrow> derive_title msgs = ''New Chat''"
  by (simp add: derive_title_def find_isUser_None slice0_def js_or_def truthy_def or_default_def)

text \<open>
  Claim C2, as amended. For a batch with no entry of role \<open>user\<close>,
  \<^verbatim>\<open>handleChatMessages\<close> answers 400 with \<^verbatim>\<open>No user message provided\<close> and leaves the
  store as it was: no message row, no time stamp. \<^verbatim>\<open>POST /chat/:chatId\<close> on an existing
  chat therefore leaves the whole store unchanged. \<^verbatim>\<open>POST /chat\<close> answers 400 as well, but
  it has inserted the new chat (titled \<^verbatim>\<open>New Chat\<close>) before the batch is looked at, and that
  row stays; nothing else changes.
\<close>

theorem no_user_message_rejected:
  assumes "filter isUser msgs = []"
  shows "handleChatMessages v e k msgs res d =
           \<lparr>out_res = json (ErrorBody ''No user message provided'' None) (status 400 res),
            out_db = d, out_prompt = None, out_thrown = None\<rparr>
     \<and> (chat_exists k d \<and> outage e SelectExistingChat = None \<longrightarrow>
          post_chat_chatId v e (Some k) msgs d =
            \<lparr>out_res = json (ErrorBody ''No user message provided'' None) (status 400 fresh),
             out_db = d, out_prompt = None, out_thrown = None\<rparr>)
     \<and> (outage e InsertChat = None \<longrightarrow>
          post_chat v e msgs d =
            \<lparr>out_res = json (ErrorBody ''No user message provided'' None) (status 400 fresh),
             out_db = d\<lparr>chats := chats d @
                            [\<lparr>chat_id = chats_id_seq d, chat_title = ''New Chat'',
                              chat_created_at = clock d, chat_updated_at = clock d\<rparr>],
                        chats_id_seq := chats_id_seq d + 1,
                        clock := Suc (clock d)\<rparr>,
             out_prompt = None, out_thrown = None\<rparr>)"
proof (intro conjI impI)
  show "handleChatMessages v e k msgs res d =
           \<lparr>out_res = json (ErrorBody ''No user message provided'' None) (status 400 res),
            out_db = d, out_prompt = None, out_thrown = None\<rparr>"
    by (rule handleChatMessages_no_user [OF assms])
next
  assume a: "chat_exists k d \<and> outage e SelectExistingChat = None"
  then obtain c cs where rows: "filter (\<lambda>c. chat_id c = k) (chats d) = c # cs"
    by (cases "filter (\<lambda>c. chat_id c = k) (chats d)")
       (auto simp: chat_exists_def filter_empty_conv)
  from a have ip: "integer_param (Some k) = Inr k"
    by (simp add: integer_param_exists [of k d])
  show "post_chat_chatId v e (Some k) msgs d =
            \<lparr>out_res = json (ErrorBody ''No user message provided'' None) (status 400 fresh),
             out_db = d, out_prompt = None, out_thrown = None\<rparr>"
    using a
    by (simp add: post_chat_chatId_def sql_def select_chat_def ip rows
                  handleChatMessages_no_user [OF assms] route_catch_def)
next
  assume a: "outage e InsertChat = None"
  show "post_chat v e msgs d =
            \<lparr>out_res = json (ErrorBody ''No user message provided'' None) (status 400 fresh),
             out_db = d\<lparr>chats := chats d @
                            [\<lparr>chat_id = chats_id_seq d, chat_title = ''New Chat'',
                              chat_created_at = clock d, chat_updated_at = clock d\<rparr>],
                        chats_id_seq := chats_id_seq d + 1,
                        clock := Suc (clock d)\<rparr>,
             out_prompt = None, out_thrown = None\<rparr>"
    by (simp add: post_chat_def sql_def a derive_title_no_user [OF assms] insert_chat_ok
                  handleChatMessages_no_user [OF assms] route_catch_def)
qed

theorem no_user_message_rejected_witness:
  "filter isUser [assistant_only ''Hi''] = []
   \<and> statusCode (out_res (post_chat_chatId Server (provider []) (Some 1)
                            [assistant_only ''Hi''] sample_db)) = 400
   \<and> out_db (post_chat_chatId Server (provider []) (Some 1) [assistant_only ''Hi''] sample_db)
       = sample_db
   \<and> messages (out_db (post_chat Server (provider []) [assistant_only ''Hi''] sample_db)) = []"
  using no_user_message_rejected [of "[assistant_only ''Hi'']" Server "provider []" 1 fresh sample_db]
  by (simp add: run_simps assistant_only_def)

text \<open>
  The claim as stated says that no chat row is created on \<^verbatim>\<open>POST /chat\<close>: with an empty
  batch on the empty store, the answer is 400 and the store holds a new chat.
\<close>

theorem bad_request_creates_chat_counterexample:
  "statusCode (out_res (post_chat Server (provider []) [] (initial_db 0))) = 400
   \<and> chats (out_db (post_chat Server (provider []) [] (initial_db 0)))
       = [\<lparr>chat_id = 1, chat_title = ''New Chat'', chat_created_at = 0, chat_updated_at = 0\<rparr>]
   \<and> chats (out_db (post_chat Server (provider []) [] (initial_db 0))) \<noteq> chats (initial_db 0)"
  by (simp add: run_simps post_chat_def derive_title_def slice0_def insert_chat_def
                initial_db_def route_catch_def)

subsection \<open>The title and the header of a new chat (claim C7)\<close>

lemma derive_title_spec:
  "derive_title msgs =
     (case find isUser msgs of
        None \<Rightarrow> ''New Chat''
      | Some m \<Rightarrow> if spec_text m = [] then ''New Chat'' else take 50 (spec_text m))"
  by (auto simp: derive_title_def spec_text_def slice0_def js_or_def truthy_def or_default_def
           split: option.splits list.splits)

lemma derive_title_length: "length (derive_title msgs) \<le> 50"
  by (auto simp: derive_title_spec split: option.splits)

lemma static_insert_message: "insert_message k r t d = Inr d' \<Longrightarrow> static_rows d' = static_rows d"
  by (auto simp: static_rows_def dest!: insert_message_Inr)

lemma static_touch_chat: "touch_chat k d = Inr d' \<Longrightarrow> static_rows d' = static_rows d"
  by (auto simp: static_rows_def touch_chat_def update_where_def split: if_splits sum.splits)

lemma static_relay_and_store:
  "static_rows (out_db (relay_and_store v e k g ctx res d)) = static_rows d"
  by (auto simp: relay_and_store_def caught_def Let_def
           split: prod.splits option.splits sum.splits if_splits
           dest!: sql_Inr static_insert_message static_touch_chat)

lemma static_handleChatMessages:
  "static_rows (out_db (handleChatMessages v e k msgs res d)) = static_rows d"
  by (cases v)
     (auto simp: caught_def Let_def static_relay_and_store
           split: prod.splits option.splits sum.splits if_splits
           dest!: sql_Inr static_insert_message)

lemma headers_relay: "headers (snd (relay cs (acc, r))) = headers r"
  by (induction cs arbitrary: acc r) (simp_all add: write_frame_def)

lemma headers_catch_error:
  "headers (catch_error v err r) = headers r"
  by (cases v) (simp_all add: end_response_def write_frame_def json_def status_def)

lemma headers_relay_and_store:
  "headers (out_res (relay_and_store v e k g ctx res d)) = headers res"
proof -
  obtain full r2 where r: "relay (chunks g) ([], res) = (full, r2)"
    by (cases "relay (chunks g) ([], res)")
  have "headers r2 = headers res"
    using headers_relay [of "chunks g" "[]" res] by (simp add: r)
  then show ?thesis
    by (simp add: relay_and_store_def r caught_def headers_catch_error Let_def
                  write_frame_def end_response_def
             split: option.splits sum.splits)
qed

lemma thrown_relay_and_store: "out_thrown (relay_and_store v e k g ctx res d) = None"
  by (simp add: relay_and_store_def caught_def Let_def split: prod.splits option.splits sum.splits)

lemma headers_handleChatMessages:
  assumes "filter isUser msgs \<noteq> []" and "chat_exists k d"
    and "outage e InsertUserMessage = None" and "outage e SelectHistory = None"
    and "v = Index2 \<longrightarrow> (\<forall>p. open_error (gateway e p) = None)"
    and "CHR 0x00 \<notin> set (userMessageText v (last (filter isUser msgs)))"
  shows "headers (out_res (handleChatMessages v e k msgs fresh d)) = streamHeaders k"
proof (cases v)
  case Server
  note ins = insert_message_ok [OF assms(2) assms(6) [unfolded Server]]
  show ?thesis
    unfolding Server using assms(3-4)
    by (simp add: pop_last [OF assms(1)] sql_def ins select_history_def
          integer_param_exists [OF assms(2)] Let_def
          caught_def headers_catch_error headers_relay_and_store
          del: userMessageText.simps split: option.splits)
       (simp add: writeHead_def fresh_def end_response_def write_frame_def)
next
  case Index2
  then have op: "open_error (gateway e p) = None" for p using assms(5) by simp
  note ins = insert_message_ok [OF assms(2) assms(6) [unfolded Index2]]
  show ?thesis
    unfolding Index2 using assms(3-4)
    by (simp add: pop_last [OF assms(1)] sql_def ins select_history_def
          integer_param_exists [OF assms(2)] Let_def
          op headers_relay_and_store del: userMessageText.simps)
       (simp add: writeHead_def fresh_def end_response_def write_frame_def)
qed

lemma thrown_handleChatMessages:
  assumes "filter isUser msgs \<noteq> []" and "chat_exists k d"
    and "outage e InsertUserMessage = None" and "outage e SelectHistory = None"
    and "CHR 0x00 \<notin> set (userMessageText v (last (filter isUser msgs)))"
  shows "out_thrown (handleChatMessages v e k msgs fresh d) = None"
proof (cases v)
  case Server
  note ins = insert_message_ok [OF assms(2) assms(5) [unfolded Server]]
  show ?thesis
    unfolding Server using assms(3-4)
    by (simp add: pop_last [OF assms(1)] sql_def ins select_history_def
          integer_param_exists [OF assms(2)] Let_def caught_def thrown_relay_and_store
          del: userMessageText.simps split: option.splits)
next
  case Index2
  note ins = insert_message_ok [OF assms(2) assms(5) [unfolded Index2]]
  show ?thesis
    unfolding Index2 using assms(3-4)
    by (simp add: pop_last [OF assms(1)] sql_def ins select_history_def
          integer_param_exists [OF assms(2)] Let_def caught_def thrown_relay_and_store
          del: userMessageText.simps split: option.splits)
qed

lemma out_db_route_catch [simp]: "out_db (route_catch out) = out_db out"
  by (simp add: route_catch_def split: option.splits)

lemma headers_route_catch:
  "out_thrown out = None \<Longrightarrow> out_res (route_catch out) = out_res out"
  by (simp add: route_catch_def)

lemma post_chat_unfold:
  assumes "outage e InsertChat = None" and "CHR 0x00 \<notin> set (derive_title msgs)"
  shows "post_chat v e msgs d =
     route_catch (handleChatMessages v e (chats_id_seq d) msgs fresh
       (d\<lparr>chats := chats d @ [\<lparr>chat_id = chats_id_seq d, chat_title = derive_title msgs,
                                  chat_created_at = clock d, chat_updated_at = clock d\<rparr>],
            chats_id_seq := chats_id_seq d + 1,
            clock := Suc (clock d)\<rparr>))"
proof -
  have "length (derive_title msgs) \<le> 255"
    using derive_title_length [of msgs] by simp
  then show ?thesis
    by (simp add: post_chat_def sql_def assms insert_chat_ok)
qed

lemma derive_title_no_user_clean:
  "filter isUser msgs = [] \<Longrightarrow> CHR 0x00 \<notin> set (derive_title msgs)"
  by (simp add: derive_title_no_user)

text \<open>
  Claim C7, as amended. \<^verbatim>\<open>POST /chat\<close> with a derived title that holds no U+0000, on a
  store that executes the insert into \<^verbatim>\<open>chats\<close> (no outage, the sequence of chat ids not
  exhausted), adds exactly one chat; its id is the next value of the sequence and its
  title is the text of the first entry of role \<open>user\<close> cut to 50 characters, or
  \<^verbatim>\<open>New Chat\<close> when there is no such entry or its text is empty; the title never has more
  than 50 characters; the chats that were there keep id, title and creation time. The id
  of the new chat is carried in the header \<^verbatim>\<open>X-Chat-Id\<close> when \<^verbatim>\<open>handleChatMessages\<close> reaches
  \<^verbatim>\<open>res.writeHead\<close>: the batch has a user entry, the text taken from its last user entry
  holds no U+0000, the store executes the insert of the user message and the select of
  the history, and, in \<^verbatim>\<open>index2.ts\<close> only, the provider accepts the call. For a batch with
  no user entry the response has no header at all.
\<close>

theorem new_chat_title:
  assumes store: "outage e InsertChat = None"
    and title: "CHR 0x00 \<notin> set (derive_title msgs)"
    and ids: "int4 (chats_id_seq d)"
  shows "static_rows (out_db (post_chat v e msgs d))
           = static_rows d @ [(chats_id_seq d, derive_title msgs, clock d)]
     \<and> derive_title msgs =
          (case find isUser msgs of
             None \<Rightarrow> ''New Chat''
           | Some m \<Rightarrow> if spec_text m = [] then ''New Chat'' else take 50 (spec_text m))
     \<and> length (derive_title msgs) \<le> 50
     \<and> (filter isUser msgs \<noteq> []
          \<and> CHR 0x00 \<notin> set (userMessageText v (last (filter isUser msgs)))
          \<and> outage e InsertUserMessage = None
          \<and> outage e SelectHistory = None
          \<and> (v = Index2 \<longrightarrow> (\<forall>p. open_error (gateway e p) = None)) \<longrightarrow>
          map_of (headers (out_res (post_chat v e msgs d))) ''X-Chat-Id''
            = Some (HNum (chats_id_seq d)))
     \<and> (filter isUser msgs = [] \<longrightarrow> headers (out_res (post_chat v e msgs d)) = [])"
proof (intro conjI impI)
  let ?d1 = "d\<lparr>chats := chats d @ [\<lparr>chat_id = chats_id_seq d, chat_title = derive_title msgs,
                                  chat_created_at = clock d, chat_updated_at = clock d\<rparr>],
            chats_id_seq := chats_id_seq d + 1,
            clock := Suc (clock d)\<rparr>"
  note unfold = post_chat_unfold [OF store title, of v d]
  show "static_rows (out_db (post_chat v e msgs d))
           = static_rows d @ [(chats_id_seq d, derive_title msgs, clock d)]"
    by (simp add: unfold static_handleChatMessages)
       (simp add: static_rows_def)
  show "derive_title msgs =
          (case find isUser msgs of
             None \<Rightarrow> ''New Chat''
           | Some m \<Rightarrow> if spec_text m = [] then ''New Chat'' else take 50 (spec_text m))"
    by (rule derive_title_spec)
  show "length (derive_title msgs) \<le> 50"
    by (rule derive_title_length)
  {
    assume a: "filter isUser msgs \<noteq> []
          \<and> CHR 0x00 \<notin> set (userMessageText v (last (filter isUser msgs)))
          \<and> outage e InsertUserMessage = None
          \<and> outage e SelectHistory = None
          \<and> (v = Index2 \<longrightarrow> (\<forall>p. open_error (gateway e p) = None))"
    have ex: "chat_exists (chats_id_seq d) ?d1"
      using ids by (simp add: chat_exists_def)
    have h: "headers (out_res (handleChatMessages v e (chats_id_seq d) msgs fresh ?d1))
               = streamHeaders (chats_id_seq d)"
      by (rule headers_handleChatMessages [OF _ ex]) (use a in simp_all)
    have t: "out_thrown (handleChatMessages v e (chats_id_seq d) msgs fresh ?d1) = None"
      by (rule thrown_handleChatMessages [OF _ ex]) (use a in simp_all)
    show "map_of (headers (out_res (post_chat v e msgs d))) ''X-Chat-Id''
            = Some (HNum (chats_id_seq d))"
      by (simp add: unfold headers_route_catch [OF t] h streamHeaders_def)
  }
  {
    assume "filter isUser msgs = []"
    then show "headers (out_res (post_chat v e msgs d)) = []"
      by (simp add: unfold handleChatMessages_no_user route_catch_def
            json_def status_def fresh_def)
  }
qed

theorem new_chat_title_witness:
  "derive_title [user_content (replicate 60 CHR ''x'')] = replicate 50 CHR ''x''
   \<and> length (derive_title [user_content (replicate 60 CHR ''x'')]) = 50
   \<and> derive_title [user_content ''Hello there, how are you doing today'']
        = ''Hello there, how are you doing today''
   \<and> static_rows (out_db (post_chat Server (provider [''Fine.''])
                             [user_content ''Hello there, how are you doing today'']
                             (initial_db 0)))
        = [(1, ''Hello there, how are you doing today'', 0)]
   \<and> map_of (headers (out_res (post_chat Server (provider [''Fine.''])
                             [user_content ''Hello there, how are you doing today'']
                             (initial_db 0)))) ''X-Chat-Id'' = Some (HNum 1)"
  using new_chat_title [where e = "provider [''Fine.'']" and v = Server and d = "initial_db 0"
                           and msgs = "[user_content ''Hello there, how are you doing today'']"]
        new_chat_title [where e = "provider []" and v = Server and d = "initial_db 0"
                           and msgs = "[user_content (replicate 60 CHR ''x'')]"]
  by (simp add: run_simps static_rows_def initial_db_def derive_title_def slice0_def
                spec_text_def)

text \<open>
  The claim as stated puts the id of the new chat in a response header for every request:
  for an empty batch the chat is created with the default title, the answer is 400, and
  no \<^verbatim>\<open>X-Chat-Id\<close> header is set.
\<close>

theorem chat_id_header_missing_counterexample:
  "static_rows (out_db (post_chat Server (provider []) [] (initial_db 0))) = [(1, ''New Chat'', 0)]
   \<and> statusCode (out_res (post_chat Server (provider []) [] (initial_db 0))) = 400
   \<and> map_of (headers (out_res (post_chat Server (provider []) [] (initial_db 0)))) ''X-Chat-Id''
        = None"
  by (simp add: run_simps post_chat_def derive_title_def slice0_def insert_chat_def
                initial_db_def route_catch_def static_rows_def)

subsection \<open>Deleting a chat (claim C9)\<close>

lemma delete_chats_id_ok:
  "outage e DeleteChat = None \<Longrightarrow> int4 k \<Longrightarrow>
   delete_chats_id e (Some k) d =
     (send (status 204 fresh),
      d\<lparr>chats := filter (\<lambda>c. chat_id c \<noteq> k) (chats d),
        messages := filter (\<lambda>m. msg_chat_id m \<noteq> k) (messages d)\<rparr>)"
  by (simp add: delete_chats_id_def delete_chat_def integer_param_ok sql_def)

text \<open>
  Claim C9, as amended. \<^verbatim>\<open>DELETE /chats/:id\<close> with an id that is a 32-bit integer, the
  statement not refused by an outage: the answer is 204 with no body; the chat with that
  id and every message of it are gone and nothing else is removed; deleting again gives
  the same answer and the same store, and in a consistent store deleting an id that no
  chat has changes nothing and still answers 204; afterwards \<^verbatim>\<open>GET /chats/:id\<close> answers
  404 \<^verbatim>\<open>Chat not found\<close>, not an empty list of messages.
\<close>

theorem delete_chat_cascades:
  assumes store: "outage e DeleteChat = None"
    and id: "int4 k"
  shows "statusCode (fst (delete_chats_id e (Some k) d)) = 204
     \<and> jsonBody (fst (delete_chats_id e (Some k) d)) = None
     \<and> finished (fst (delete_chats_id e (Some k) d))
     \<and> chats (snd (delete_chats_id e (Some k) d)) = filter (\<lambda>c. chat_id c \<noteq> k) (chats d)
     \<and> messages (snd (delete_chats_id e (Some k) d))
         = filter (\<lambda>m. msg_chat_id m \<noteq> k) (messages d)
     \<and> \<not> chat_exists k (snd (delete_chats_id e (Some k) d))
     \<and> delete_chats_id e (Some k) (snd (delete_chats_id e (Some k) d))
         = delete_chats_id e (Some k) d
     \<and> (consistent d \<and> \<not> chat_exists k d \<longrightarrow> delete_chats_id e (Some k) d = (send (status 204 fresh), d))
     \<and> (outage e' SelectChat = None \<longrightarrow>
          get_chats_id e' (Some k) (snd (delete_chats_id e (Some k) d))
            = (not_found fresh, snd (delete_chats_id e (Some k) d)))
     \<and> statusCode (not_found fresh) = 404
     \<and> jsonBody (not_found fresh) = Some (ErrorBody ''Chat not found'' None)"
proof -
  note del = delete_chats_id_ok [OF store id]
  have gone: "filter (\<lambda>c. chat_id c = k) (filter (\<lambda>c. chat_id c \<noteq> k) (chats d)) = []"
    by (simp add: filter_empty_conv)
  have same: "d\<lparr>chats := filter (\<lambda>c. chat_id c \<noteq> k) (chats d),
        messages := filter (\<lambda>m. msg_chat_id m \<noteq> k) (messages d)\<rparr> = d"
    if "consistent d" "\<not> chat_exists k d"
  proof -
    have "filter (\<lambda>c. chat_id c \<noteq> k) (chats d) = chats d"
      using that(2) id by (auto simp: chat_exists_def filter_id_conv)
    moreover have "filter (\<lambda>m. msg_chat_id m \<noteq> k) (messages d) = messages d"
      using that by (auto simp: consistent_def filter_id_conv)
    ultimately show ?thesis by simp
  qed
  have absent: "k \<notin> chat_id ` {x \<in> set (chats d). chat_id x \<noteq> k}"
    by auto
  show ?thesis
    by (simp add: del send_def status_def fresh_def chat_exists_def same [unfolded chat_exists_def]
          get_chats_id_def sql_def select_chat_def integer_param_ok [OF id] gone not_found_def
          json_def absent id)
qed

theorem delete_chat_cascades_witness:
  "chats (snd (delete_chats_id (provider []) (Some 1)
          (out_db (handleChatMessages Server (provider [''Hi'']) 1 [user_content ''Hello''] fresh sample_db))))
     = []
   \<and> messages (out_db (handleChatMessages Server (provider [''Hi'']) 1 [user_content ''Hello''] fresh sample_db))
     \<noteq> []
   \<and> messages (snd (delete_chats_id (provider []) (Some 1)
          (out_db (handleChatMessages Server (provider [''Hi'']) 1 [user_content ''Hello''] fresh sample_db))))
     = []
   \<and> statusCode (fst (delete_chats_id (provider []) (Some 7) sample_db)) = 204
   \<and> snd (delete_chats_id (provider []) (Some 7) sample_db) = sample_db
   \<and> statusCode (fst (get_chats_id (provider []) (Some 1)
                        (snd (delete_chats_id (provider []) (Some 1) sample_db)))) = 404"
  using delete_chat_cascades [of "provider []" 1
          "out_db (handleChatMessages Server (provider [''Hi'']) 1 [user_content ''Hello''] fresh sample_db)"
          "provider []"]
        delete_chat_cascades [of "provider []" 7 sample_db "provider []"]
        delete_chat_cascades [of "provider []" 1 sample_db "provider []"]
  by (simp add: run_simps consistent_def send_def)

text \<open>
  The claim as stated holds for every id. An id outside the range of the \<^verbatim>\<open>INTEGER\<close>
  column, which no chat has, and an id that is no integer are refused by the store: the
  route answers 500, not 204, and the \<^verbatim>\<open>GET\<close> that follows answers 500, not 404.
\<close>

theorem delete_unknown_id_counterexample:
  "\<not> chat_exists 2147483648 sample_db
   \<and> delete_chats_id (provider []) (Some 2147483648) sample_db
       = (internal_error None fresh, sample_db)
   \<and> statusCode (fst (delete_chats_id (provider []) (Some 2147483648) sample_db)) = 500
   \<and> statusCode (fst (delete_chats_id (provider []) None sample_db)) = 500
   \<and> statusCode (fst (get_chats_id (provider []) (Some 2147483648) sample_db)) = 500"
  by (simp add: run_simps delete_chats_id_def delete_chat_def get_chats_id_def select_chat_def
                internal_error_def)

subsection \<open>Time stamps of a chat (claim C8)\<close>

lemma consistent_reachable: "consistent (serve_all v rs (initial_db t0))"
  using serve_all_evolves [of "initial_db t0" v rs] consistent_initial [of t0]
  by (simp add: evolves_def)

lemma same_id_same_chat:
  assumes "distinct (map chat_id cs)" and "c \<in> set cs" and "c0 \<in> set cs"
    and "chat_id c0 = chat_id c"
  shows "c0 = c"
  using assms by (meson distinct_map inj_onD)

lemma descends_same_chat:
  assumes con: "consistent d" and des: "descends d d'"
    and c: "c \<in> set (chats d)" and c': "c' \<in> set (chats d')"
    and same: "chat_id c' = chat_id c"
  shows "chat_created_at c' = chat_created_at c \<and> chat_updated_at c \<le> chat_updated_at c'"
proof -
  have old: "chat_id c < chats_id_seq d" and dis: "distinct (map chat_id (chats d))"
    using con c by (auto simp: consistent_def)
  from des c' consider "chats_id_seq d \<le> chat_id c'"
    | c0 where "c0 \<in> set (chats d)" "chat_id c0 = chat_id c'"
        "chat_created_at c0 = chat_created_at c'" "chat_updated_at c0 \<le> chat_updated_at c'"
    unfolding descends_def by blast
  then show ?thesis
  proof cases
    case 1
    then show ?thesis using old same by simp
  next
    case 2
    have "c0 = c"
      by (rule same_id_same_chat [OF dis c 2(1)]) (simp add: 2(2) same)
    then show ?thesis using 2 by simp
  qed
qed

lemma stamped_later:
  assumes con: "consistent d" and c: "c \<in> set (chats d)"
    and c': "c' \<in> set (update_where k f (chats d))" and same: "chat_id c' = chat_id c"
    and k: "chat_id c = k"
    and f: "\<And>x. chat_id (f x) = chat_id x" "\<And>x. chat_updated_at (f x) = t"
    and t: "clock d \<le> t"
  shows "chat_updated_at c < chat_updated_at c'"
proof -
  have "chat_updated_at c < clock d"
    using con c by (auto simp: consistent_def)
  moreover have "chat_updated_at c' = t"
    using update_where_mem [OF c'] same k f by auto
  ultimately show ?thesis using t by simp
qed

lemma put_chats_id_200:
  assumes "statusCode (fst (put_chats_id e (Some k) t d)) = 200"
  shows "\<exists>s. chats (snd (put_chats_id e (Some k) t d))
              = update_where k (\<lambda>c. c\<lparr>chat_title := s, chat_updated_at := clock d\<rparr>) (chats d)"
  using assms
  by (auto simp: put_chats_id_def sql_def update_title_def internal_error_def not_found_def
                 json_def status_def fresh_def Let_def
           split: option.splits sum.splits if_splits list.splits
           dest!: integer_param_Inr)

lemma headersSent_relay: "headersSent r \<Longrightarrow> headersSent (snd (relay cs (acc, r)))"
  by (simp add: relay_sent)

lemma caught_not_completed:
  "headersSent r \<Longrightarrow> \<not> completed (catch_error v err r)"
  by (cases v) (simp_all add: completed_def end_response_def write_frame_def)

lemma completed_relay_and_store:
  assumes "completed (out_res (relay_and_store v e k g ctx res d))" and "headersSent res"
    and "chat_exists k d"
  shows "\<exists>t\<ge>clock d. chats (out_db (relay_and_store v e k g ctx res d))
           = update_where k (\<lambda>c. c\<lparr>chat_updated_at := t\<rparr>) (chats d)"
proof -
  obtain full r2 where r: "relay (chunks g) ([], res) = (full, r2)"
    by (cases "relay (chunks g) ([], res)")
  have r2: "headersSent r2"
    using headersSent_relay [OF assms(2), of "chunks g" "[]"] by (simp add: r)
  then have r3: "headersSent (write_frame Done r2)" by (simp add: write_frame_def)
  note nc = caught_not_completed [OF r2] caught_not_completed [OF r3]
  have ex: "chat_exists k d'" if "insert_message k r t d = Inr d'" for r t d'
    using insert_message_Inr [OF that] assms(3) by (auto simp: chat_exists_def)
  have ch: "chats d' = chats d \<and> clock d \<le> clock d'" if "insert_message k r t d = Inr d'" for r t d'
    using insert_message_Inr [OF that] by auto
  let ?S = "if trim full \<noteq> []
            then sql e InsertAssistantMessage (insert_message k ''assistant'' full d)
            else Inr d"
  show ?thesis
  proof (cases "stream_error g")
    case (Some err)
    then show ?thesis
      using assms(1) by (simp add: relay_and_store_def r caught_def nc)
  next
    case None
    show ?thesis
    proof (cases ?S)
      case (Inl err)
      then show ?thesis
        using assms(1) None by (simp add: relay_and_store_def r caught_def nc Let_def)
    next
      case (Inr d2)
      have d2: "chats d2 = chats d \<and> clock d \<le> clock d2"
        using Inr ch by (auto split: if_splits dest!: sql_Inr)
      then have ex2: "chat_exists k d2"
        using assms(3) by (simp add: chat_exists_def)
      show ?thesis
      proof (cases "sql e TouchChat (touch_chat k d2)")
        case (Inl err)
        then show ?thesis
          using assms(1) None Inr by (simp add: relay_and_store_def r caught_def nc Let_def)
      next
        case (Inr d3)
        then have "chats d3 = update_where k (\<lambda>c. c\<lparr>chat_updated_at := clock d2\<rparr>) (chats d)"
          using ex2 d2
          by (auto dest!: sql_Inr simp: touch_chat_def integer_param_exists [OF ex2])
        moreover have "out_db (relay_and_store v e k g ctx res d) = d3"
          using None \<open>?S = Inr d2\<close> Inr by (simp add: relay_and_store_def r Let_def)
        ultimately show ?thesis using d2 by auto
      qed
    qed
  qed
qed

lemma completed_route_catch:
  "completed (out_res (route_catch out)) \<Longrightarrow> completed (out_res out)"
  by (simp add: route_catch_def completed_def internal_error_def json_def status_def
           split: option.splits)

lemma completed_handleChatMessages:
  assumes "completed (out_res (handleChatMessages v e k msgs fresh d))"
  shows "chat_exists k d \<and>
         (\<exists>t\<ge>clock d. chats (out_db (handleChatMessages v e k msgs fresh d))
           = update_where k (\<lambda>c. c\<lparr>chat_updated_at := t\<rparr>) (chats d))
         \<and> out_thrown (handleChatMessages v e k msgs fresh d) = None"
proof (cases "pop (filter isUser msgs)")
  case None
  then show ?thesis
    using assms by (cases v) (simp_all add: completed_def json_def status_def fresh_def)
next
  case (Some m)
  let ?I = "sql e InsertUserMessage (insert_message k ''user'' (userMessageText v m) d)"
  have fr: "\<not> completed fresh" "\<not> completed (catch_error Server err fresh)" for err
    by (simp_all add: completed_def fresh_def json_def status_def)
  have sent: "headersSent (writeHead 200 (streamHeaders k) fresh)"
    by (simp add: writeHead_def)
  show ?thesis
  proof (cases ?I)
    case (Inl err)
    then show ?thesis
      using assms Some fr by (cases v) (simp_all add: caught_def)
  next
    case (Inr d1)
    from insert_message_Inr [OF sql_Inr [OF Inr]]
    have ex: "chat_exists k d" and d1: "chats d1 = chats d" "clock d \<le> clock d1"
      by auto
    then have ex1: "chat_exists k d1" by (simp add: chat_exists_def)
    obtain hist where hist: "sql e SelectHistory (select_history k d1) = hist" by simp
    show ?thesis
    proof (cases hist)
      case (Inl err)
      then show ?thesis
        using assms Some Inr hist fr by (cases v) (simp_all add: caught_def)
    next
      case (Inr allMessages)
      let ?ctx = "conversationContext v allMessages (userMessageText v m)"
      show ?thesis
      proof (cases "open_error (gateway e ?ctx)")
        case (Some err)
        have "\<not> completed (catch_error v err (writeHead 200 (streamHeaders k) fresh))"
          by (rule caught_not_completed [OF sent])
        moreover have "\<not> completed (catch_error Index2 err fresh)"
          by (simp add: completed_def end_response_def write_frame_def fresh_def)
        ultimately show ?thesis
          using assms \<open>pop (filter isUser msgs) = Some m\<close> \<open>?I = Inr d1\<close> hist Inr Some
          by (cases v) (simp_all add: caught_def Let_def)
      next
        case None
        let ?R = "relay_and_store v e k (gateway e ?ctx) ?ctx
                    (writeHead 200 (streamHeaders k) fresh) d1"
        have eq: "handleChatMessages v e k msgs fresh d = ?R"
          using \<open>pop (filter isUser msgs) = Some m\<close> \<open>?I = Inr d1\<close> hist Inr None
          by (cases v) (simp_all add: Let_def)
        from completed_relay_and_store [OF assms [unfolded eq] sent ex1]
        obtain t where "t \<ge> clock d1"
          "chats (out_db ?R) = update_where k (\<lambda>c. c\<lparr>chat_updated_at := t\<rparr>) (chats d1)"
          by blast
        then show ?thesis
          using ex d1 by (auto simp: eq thrown_relay_and_store intro!: exI [of _ t])
      qed
    qed
  qed
qed

text \<open>
  Claim C8. In every store \<open>d\<close> reached from the initial one by any sequence of requests:
  each chat has \<^verbatim>\<open>created_at <= updated_at\<close>; whatever requests follow, a chat that is
  still there has the creation time it had in \<open>d\<close>; a title update that answers 200
  moves \<^verbatim>\<open>updated_at\<close> of the chat forward; and so does a completed exchange, on an
  existing chat as on the chat that \<^verbatim>\<open>POST /chat\<close> has just created. (\<^verbatim>\<open>NOW()\<close> is the
  logical clock of the store, which every reading advances.)
\<close>

theorem chat_timestamps:
  assumes d: "d = serve_all v rs (initial_db t0)"
  shows "(\<forall>c \<in> set (chats d). chat_created_at c \<le> chat_updated_at c)
     \<and> (\<forall>c \<in> set (chats d). \<forall>c' \<in> set (chats (serve_all v rs' d)).
           chat_id c' = chat_id c \<longrightarrow> chat_created_at c' = chat_created_at c)
     \<and> (\<forall>c \<in> set (chats d). \<forall>c' \<in> set (chats (snd (put_chats_id e (Some (chat_id c)) t d))).
           statusCode (fst (put_chats_id e (Some (chat_id c)) t d)) = 200 \<and> chat_id c' = chat_id c
           \<longrightarrow> chat_updated_at c < chat_updated_at c')
     \<and> (\<forall>c \<in> set (chats d).
         \<forall>c' \<in> set (chats (out_db (post_chat_chatId v e (Some (chat_id c)) msgs d))).
           completed (out_res (post_chat_chatId v e (Some (chat_id c)) msgs d))
           \<and> chat_id c' = chat_id c
           \<longrightarrow> chat_updated_at c < chat_updated_at c')
     \<and> (\<forall>c' \<in> set (chats (out_db (post_chat v e msgs d))).
           completed (out_res (post_chat v e msgs d)) \<and> chat_id c' = chats_id_seq d
           \<longrightarrow> chat_created_at c' < chat_updated_at c')"
proof (intro conjI ballI impI)
  have con: "consistent d"
    unfolding d by (rule consistent_reachable)
  {
    fix c assume "c \<in> set (chats d)"
    then show "chat_created_at c \<le> chat_updated_at c"
      using con by (simp add: consistent_def)
  }
  {
    fix c c' assume c: "c \<in> set (chats d)" and c': "c' \<in> set (chats (serve_all v rs' d))"
      and same: "chat_id c' = chat_id c"
    have "descends d (serve_all v rs' d)"
      using serve_all_evolves [of d v rs'] con by (simp add: evolves_def)
    from descends_same_chat [OF con this c c' same]
    show "chat_created_at c' = chat_created_at c" by simp
  }
  {
    fix c c' assume c: "c \<in> set (chats d)"
      and c': "c' \<in> set (chats (snd (put_chats_id e (Some (chat_id c)) t d)))"
      and ok: "statusCode (fst (put_chats_id e (Some (chat_id c)) t d)) = 200 \<and> chat_id c' = chat_id c"
    from put_chats_id_200 [of e "chat_id c" t d] ok obtain s where
      "chats (snd (put_chats_id e (Some (chat_id c)) t d))
         = update_where (chat_id c) (\<lambda>c. c\<lparr>chat_title := s, chat_updated_at := clock d\<rparr>) (chats d)"
      by blast
    with c' have "c' \<in> set (update_where (chat_id c)
                     (\<lambda>c. c\<lparr>chat_title := s, chat_updated_at := clock d\<rparr>) (chats d))"
      by simp
    from stamped_later [OF con c this, of "clock d"] ok
    show "chat_updated_at c < chat_updated_at c'" by simp
  }
  {
    fix c c' assume c: "c \<in> set (chats d)"
      and c': "c' \<in> set (chats (out_db (post_chat_chatId v e (Some (chat_id c)) msgs d)))"
      and ok: "completed (out_res (post_chat_chatId v e (Some (chat_id c)) msgs d))
               \<and> chat_id c' = chat_id c"
    let ?H = "handleChatMessages v e (chat_id c) msgs fresh d"
    have nf: "\<not> completed (internal_error x fresh)" "\<not> completed (not_found fresh)" for x
      by (simp_all add: completed_def internal_error_def not_found_def json_def status_def fresh_def)
    have "post_chat_chatId v e (Some (chat_id c)) msgs d = route_catch ?H"
      using ok nf
      by (auto simp: post_chat_chatId_def split: sum.splits list.splits)
    then have comp: "completed (out_res ?H)"
      and db: "out_db (post_chat_chatId v e (Some (chat_id c)) msgs d) = out_db ?H"
      using ok completed_route_catch [of ?H] by auto
    from completed_handleChatMessages [OF comp] obtain t where t: "t \<ge> clock d"
      and "chats (out_db ?H) = update_where (chat_id c) (\<lambda>c. c\<lparr>chat_updated_at := t\<rparr>) (chats d)"
      by blast
    with c' db have "c' \<in> set (update_where (chat_id c) (\<lambda>c. c\<lparr>chat_updated_at := t\<rparr>) (chats d))"
      by simp
    from stamped_later [OF con c this _ _ _ _ t] ok
    show "chat_updated_at c < chat_updated_at c'" by simp
  }
  {
    fix c' assume c': "c' \<in> set (chats (out_db (post_chat v e msgs d)))"
      and ok: "completed (out_res (post_chat v e msgs d)) \<and> chat_id c' = chats_id_seq d"
    let ?new = "\<lparr>chat_id = chats_id_seq d, chat_title = derive_title msgs,
                  chat_created_at = clock d, chat_updated_at = clock d\<rparr>"
    let ?d1 = "d\<lparr>chats := chats d @ [?new], chats_id_seq := chats_id_seq d + 1,
                  clock := Suc (clock d)\<rparr>"
    let ?H = "handleChatMessages v e (chats_id_seq d) msgs fresh ?d1"
    have up: "outage e InsertChat = None"
    proof (cases "outage e InsertChat")
      case (Some err)
      then show ?thesis
        using ok
        by (simp add: post_chat_def sql_def completed_def internal_error_def json_def
              status_def fresh_def)
    qed simp
    have clean: "CHR 0x00 \<notin> set (derive_title msgs)"
    proof (rule ccontr)
      assume "\<not> CHR 0x00 \<notin> set (derive_title msgs)"
      then have "insert_chat (Some (derive_title msgs)) d
                 = Inl ''invalid byte sequence for encoding UTF8: 0x00''"
        by (simp add: insert_chat_def text_param_def)
      then show False
        using ok
        by (simp add: post_chat_def sql_def up completed_def internal_error_def json_def
              status_def fresh_def)
    qed
    note eq = post_chat_unfold [OF up clean, of v d]
    have comp: "completed (out_res ?H)"
      using ok completed_route_catch [of ?H] by (simp add: eq)
    from completed_handleChatMessages [OF comp] obtain t where t: "t \<ge> clock ?d1"
      and ch: "chats (out_db ?H)
                = update_where (chats_id_seq d) (\<lambda>c. c\<lparr>chat_updated_at := t\<rparr>) (chats ?d1)"
      by blast
    from c' have "c' \<in> set (update_where (chats_id_seq d) (\<lambda>c. c\<lparr>chat_updated_at := t\<rparr>)
                               (chats ?d1))"
      by (simp add: eq ch)
    from update_where_mem [OF this] ok
    have "\<exists>c0 \<in> set (chats ?d1). chat_id c0 = chats_id_seq d \<and> c' = c0\<lparr>chat_updated_at := t\<rparr>"
      by blast
    then obtain c0 where
      c0: "c0 \<in> set (chats ?d1)" "chat_id c0 = chats_id_seq d" "c' = c0\<lparr>chat_updated_at := t\<rparr>"
      by blast
    have "c0 \<notin> set (chats d)"
      using con c0(2) by (auto simp: consistent_def)
    with c0(1) have "c0 = ?new" by simp
    then show "chat_created_at c' < chat_updated_at c'"
      using c0(3) t by simp
  }
qed

theorem chat_timestamps_witness:
  "serve_all Server [(provider [], PostChats (Some ''Test''))] (initial_db 0) = sample_db
   \<and> chats sample_db
       = [\<lparr>chat_id = 1, chat_title = ''Test'', chat_created_at = 0, chat_updated_at = 0\<rparr>]
   \<and> chats (serve_all Server
               [(provider [], PutChat (Some 1) (Some ''Renamed'')),
                (provider [''Hi''], PostChatId (Some 1) [user_content ''Hello''])] sample_db)
       = [\<lparr>chat_id = 1, chat_title = ''Renamed'', chat_created_at = 0, chat_updated_at = 4\<rparr>]
   \<and> statusCode (fst (put_chats_id (provider []) (Some 1) (Some ''Renamed'') sample_db)) = 200
   \<and> chats (snd (put_chats_id (provider []) (Some 1) (Some ''Renamed'') sample_db))
       = [\<lparr>chat_id = 1, chat_title = ''Renamed'', chat_created_at = 0, chat_updated_at = 1\<rparr>]
   \<and> completed (out_res (post_chat_chatId Server (provider [''Hi'']) (Some 1)
                            [user_content ''Hello''] sample_db))
   \<and> chats (out_db (post_chat_chatId Server (provider [''Hi'']) (Some 1)
                            [user_content ''Hello''] sample_db))
       = [\<lparr>chat_id = 1, chat_title = ''Test'', chat_created_at = 0, chat_updated_at = 3\<rparr>]
   \<and> completed (out_res (post_chat Server (provider [''Hi'']) [user_content ''Hello''] sample_db))
   \<and> chats (out_db (post_chat Server (provider [''Hi'']) [user_content ''Hello''] sample_db))
       = [\<lparr>chat_id = 1, chat_title = ''Test'', chat_created_at = 0, chat_updated_at = 0\<rparr>,
          \<lparr>chat_id = 2, chat_title = ''Hello'', chat_created_at = 1, chat_updated_at = 4\<rparr>]"
  using chat_timestamps [of sample_db Server "[(provider [], PostChats (Some ''Test''))]" 0
          "[(provider [], PutChat (Some 1) (Some ''Renamed'')),
            (provider [''Hi''], PostChatId (Some 1) [user_content ''Hello''])]"
          "provider [''Hi'']" "Some ''Renamed''" "[user_content ''Hello'']"]
  by (simp add: run_simps initial_db_def post_chats_def insert_chat_def put_chats_id_def
        update_title_def post_chat_chatId_def select_chat_def route_catch_def post_chat_def
        derive_title_def slice0_def completed_def)

subsection \<open>The text of the user message (claim C4)\<close>

text \<open>\<^verbatim>\<open>index2.ts\<close> extracts the text as the specification says.\<close>

lemma userMessageText_Index2_spec: "userMessageText Index2 m = spec_text m"
  by (auto simp: spec_text_def js_or_def truthy_def or_default_def
           split: option.splits list.splits)

text \<open>
  Claim C4 says that the text of the current user message is the text of its first part
  when present, else its content, else empty. \<^verbatim>\<open>server.ts\<close> (line 405) reads the content
  only: for the message \<^verbatim>\<open>{role: "user", parts: [{type: "text", text: "My name is John"}]}\<close>,
  the shape the repository's test client sends, the claim and \<^verbatim>\<open>index2.ts\<close> give the
  text of the part, while \<^verbatim>\<open>server.ts\<close> stores an empty user message and sends the model
  a prompt with an empty user turn.
\<close>

theorem server_ignores_parts:
  "spec_text (user_parts ''My name is John'') = ''My name is John''
   \<and> userMessageText Index2 (user_parts ''My name is John'') = ''My name is John''
   \<and> userMessageText Server (user_parts ''My name is John'') = []
   \<and> messages (out_db (post_chat_chatId Server (provider [''Hi'']) (Some 1)
                          [user_parts ''My name is John''] sample_db))
       = [\<lparr>msg_id = 1, msg_chat_id = 1, msg_role = ''user'', msg_content = [],
           msg_created_at = 1\<rparr>,
          \<lparr>msg_id = 2, msg_chat_id = 1, msg_role = ''assistant'', msg_content = ''Hi'',
           msg_created_at = 2\<rparr>]
   \<and> out_prompt (post_chat_chatId Server (provider [''Hi'']) (Some 1)
                          [user_parts ''My name is John''] sample_db)
       = Some (preamble @ ''user: '' @ nl @ nl @ ''assistant:'')"
  by (simp add: run_simps spec_text_def post_chat_chatId_def select_chat_def route_catch_def)

subsection \<open>The context string (claim C5)\<close>

lemma foldl_add_entry:
  "foldl add_entry p hist = p @ concat (map (\<lambda>m. fst m @ '': '' @ snd m @ nl @ nl) hist)"
  by (induction hist arbitrary: p) (simp_all add: add_entry_def)

text \<open>
  In \<^verbatim>\<open>server.ts\<close> the prompt is the preamble, then each row of the history read back
  from the store once, among them the user message just inserted, then the cue.
\<close>

lemma server_context_exact:
  assumes "out_prompt (handleChatMessages Server e k msgs res d) = Some p"
  shows "\<exists>d1 hist.
           insert_message k ''user'' (userMessageText Server (last (filter isUser msgs))) d = Inr d1
           \<and> select_history k d1 = Inr hist
           \<and> (''user'', userMessageText Server (last (filter isUser msgs))) \<in> set hist
           \<and> p = preamble @ concat (map (\<lambda>m. fst m @ '': '' @ snd m @ nl @ nl) hist)
                   @ ''assistant:''"
proof (cases "filter isUser msgs = []")
  case True
  from handleChatMessages_no_user [OF True, of Server e k res d] assms
  show ?thesis by (simp del: handleChatMessages.simps)
next
  case False
  let ?t = "userMessageText Server (last (filter isUser msgs))"
  show ?thesis
  proof (cases "sql e InsertUserMessage (insert_message k ''user'' ?t d)")
    case (Inl err)
    then show ?thesis using assms by (simp add: pop_last [OF False] caught_def)
  next
    case (Inr d1)
    note ins = insert_message_Inr [OF sql_Inr [OF Inr]]
    from ins have ip: "integer_param (Some k) = Inr k"
      by (simp add: integer_param_exists [of k d])
    obtain hist where hist: "select_history k d1 = Inr hist"
      by (simp add: select_history_def ip)
    have mem: "(''user'', ?t) \<in> set hist"
      using hist ins by (auto simp: select_history_def ip varchar_def split: if_splits)
    have "p = conversationContext Server hist ?t"
      using assms Inr hist
      by (auto simp: pop_last [OF False] caught_def Let_def sql_def relay_and_store_def
               split: option.splits prod.splits sum.splits if_splits)
    then show ?thesis
      using sql_Inr [OF Inr] hist mem by (simp add: foldl_add_entry)
  qed
qed

text \<open>
  Claim C5 says that each entry of the stored history appears exactly once in the
  context string. In \<^verbatim>\<open>index2.ts\<close> (line 380) the current user message is appended once
  more after the history that already holds it: on a chat without messages, the user
  text \<^verbatim>\<open>Hello\<close> is stored once and appears twice in the prompt. \<^verbatim>\<open>server.ts\<close> sends it
  once.
\<close>

theorem index2_repeats_user_message:
  "out_prompt (post_chat_chatId Index2 (provider [''Hi'']) (Some 1) [user_content ''Hello''] sample_db)
     = Some (preamble @ ''user: Hello'' @ nl @ nl @ ''user: Hello'' @ nl @ nl @ ''assistant:'')
   \<and> out_prompt (post_chat_chatId Server (provider [''Hi'']) (Some 1) [user_content ''Hello''] sample_db)
     = Some (preamble @ ''user: Hello'' @ nl @ nl @ ''assistant:'')
   \<and> messages (out_db (post_chat_chatId Index2 (provider [''Hi'']) (Some 1)
                          [user_content ''Hello''] sample_db))
       = [\<lparr>msg_id = 1, msg_chat_id = 1, msg_role = ''user'', msg_content = ''Hello'',
           msg_created_at = 1\<rparr>,
          \<lparr>msg_id = 2, msg_chat_id = 1, msg_role = ''assistant'', msg_content = ''Hi'',
           msg_created_at = 2\<rparr>]"
  by (simp add: run_simps post_chat_chatId_def select_chat_def route_catch_def)

subsection \<open>Failures while generating (claim C3)\<close>

text \<open>In both revisions every request to a send route is answered and its response ended.\<close>

lemma answered_json [simp]: "answered (json b r)"
  by (simp add: answered_def json_def)

lemma answered_catch_error [simp]: "answered (catch_error v err r)"
  by (cases v) (simp_all add: answered_def end_response_def write_frame_def json_def)

lemma answered_relay_and_store: "answered (out_res (relay_and_store v e k g ctx res d))"
  by (simp add: relay_and_store_def caught_def Let_def
           del: catch_error.simps split: prod.splits option.splits sum.splits)
     (simp add: answered_def end_response_def write_frame_def)

lemma answered_handleChatMessages:
  "out_thrown (handleChatMessages v e k msgs res d) = None \<Longrightarrow>
   answered (out_res (handleChatMessages v e k msgs res d))"
  by (cases v)
     (simp_all add: caught_def Let_def answered_relay_and_store
           del: catch_error.simps split: option.splits sum.splits)

lemma answered_route_catch:
  "(out_thrown out = None \<Longrightarrow> answered (out_res out)) \<Longrightarrow> answered (out_res (route_catch out))"
  by (simp add: route_catch_def internal_error_def split: option.splits)

lemma send_routes_answer:
  "answered (out_res (post_chat v e msgs d))
   \<and> answered (out_res (post_chat_chatId v e i msgs d))"
  by (auto simp: post_chat_def post_chat_chatId_def internal_error_def not_found_def
           intro!: answered_route_catch answered_handleChatMessages
           split: sum.splits prod.splits list.splits option.splits)

text \<open>
  In \<^verbatim>\<open>server.ts\<close> an error caught before the head was written gives a 500 with a JSON
  body, and one caught after it gives an error frame and the end of the stream; these,
  the 400 and the completed stream are the only responses of \<^verbatim>\<open>handleChatMessages\<close>.
\<close>

lemma server_catch_by_head:
  "out_res (caught Server err r d p) =
     (if headersSent r
      then r\<lparr>written := written r @ [ErrorEvent ''AI Service Error'' err],
             headersSent := True, finished := True\<rparr>
      else r\<lparr>statusCode := 500, jsonBody := Some (ErrorBody ''AI Service Error'' (Some err)),
             headersSent := True, finished := True\<rparr>)"
  by (simp add: caught_def end_response_def write_frame_def json_def status_def)

lemma server_response_shapes:
  assumes r: "r = out_res (handleChatMessages Server e k msgs fresh d)"
  shows "finished r \<and>
     (statusCode r = 400 \<and> jsonBody r = Some (ErrorBody ''No user message provided'' None)
        \<and> written r = [] \<and> headers r = []
      \<or> statusCode r = 500 \<and> (\<exists>err. jsonBody r = Some (ErrorBody ''AI Service Error'' (Some err)))
        \<and> written r = [] \<and> headers r = []
      \<or> statusCode r = 200 \<and> jsonBody r = None \<and> headers r = streamHeaders k
        \<and> (\<exists>fs err. written r = map TextDelta fs @ [Done]
                  \<or> written r = map TextDelta fs @ [ErrorEvent ''AI Service Error'' err]
                  \<or> written r = map TextDelta fs @ [Done, ErrorEvent ''AI Service Error'' err]))"
proof -
  have fr: "\<not> headersSent fresh" "written fresh = []" "headers fresh = []"
    by (simp_all add: fresh_def)
  let ?h = "writeHead 200 (streamHeaders k) fresh"
  have stream: "finished (out_res (relay_and_store Server e k g ctx ?h d1))
      \<and> statusCode (out_res (relay_and_store Server e k g ctx ?h d1)) = 200
      \<and> jsonBody (out_res (relay_and_store Server e k g ctx ?h d1)) = None
      \<and> headers (out_res (relay_and_store Server e k g ctx ?h d1)) = streamHeaders k
      \<and> (\<exists>fs err. written (out_res (relay_and_store Server e k g ctx ?h d1)) = map TextDelta fs @ [Done]
             \<or> written (out_res (relay_and_store Server e k g ctx ?h d1))
                 = map TextDelta fs @ [ErrorEvent ''AI Service Error'' err]
             \<or> written (out_res (relay_and_store Server e k g ctx ?h d1))
                 = map TextDelta fs @ [Done, ErrorEvent ''AI Service Error'' err])" for g ctx d1
  proof -
    have sent: "headersSent ?h" by (simp add: writeHead_def)
    show ?thesis
      by (simp add: relay_and_store_def relay_sent [OF sent] Let_def server_catch_by_head
               split: option.splits sum.splits)
         (auto simp: writeHead_def fresh_def write_frame_def end_response_def)
  qed
  show ?thesis
  proof (cases "pop (filter isUser msgs)")
    case None
    then show ?thesis unfolding r by (simp add: json_def status_def fresh_def)
  next
    case (Some m)
    let ?t = "userMessageText Server m"
    show ?thesis
    proof (cases "sql e InsertUserMessage (insert_message k ''user'' ?t d)")
      case (Inl err)
      then show ?thesis unfolding r using Some by (simp add: server_catch_by_head fr fresh_def)
    next
      case (Inr d1)
      note ins = this
      show ?thesis
      proof (cases "sql e SelectHistory (select_history k d1)")
        case (Inl err)
        then show ?thesis
          unfolding r using Some ins by (simp add: server_catch_by_head fr fresh_def)
      next
        case (Inr hist)
        let ?ctx = "conversationContext Server hist ?t"
        show ?thesis
        proof (cases "open_error (gateway e ?ctx)")
          case None
          then have "handleChatMessages Server e k msgs fresh d
                     = relay_and_store Server e k (gateway e ?ctx) ?ctx ?h d1"
            using Some ins Inr by (simp add: Let_def)
          then show ?thesis unfolding r using stream [of "gateway e ?ctx" ?ctx d1] by simp
        next
          case (Some err)
          then have "out_res (handleChatMessages Server e k msgs fresh d)
                     = out_res (caught Server err ?h d1 (Some ?ctx))"
            using \<open>pop (filter isUser msgs) = Some m\<close> ins Inr by (simp add: Let_def)
          moreover have "written (out_res (caught Server err ?h d1 (Some ?ctx)))
                     = map TextDelta [] @ [ErrorEvent ''AI Service Error'' err]"
            by (simp add: server_catch_by_head writeHead_def fresh_def)
          ultimately show ?thesis
            unfolding r by (simp add: server_catch_by_head writeHead_def fresh_def)
        qed
      qed
    qed
  qed
qed

text \<open>
  Claim C3 says that a failure before any output is answered by a 500 with a JSON body.
  In \<^verbatim>\<open>index2.ts\<close> \<^verbatim>\<open>model.stream\<close> is called before the head is written and the
  \<^verbatim>\<open>catch\<close> block (lines 447 to 459) does not look at \<^verbatim>\<open>res.headersSent\<close>: when the provider
  rejects the call, nothing has been sent, and the answer is status 200 with an error
  frame and without the headers of an event stream. \<^verbatim>\<open>server.ts\<close> has written the head by
  then and sends the error frame inside the stream it opened.
\<close>

theorem index2_error_before_head:
  "out_res (post_chat_chatId Index2 provider_down (Some 1) [user_content ''Hello''] sample_db)
     = \<lparr>statusCode = 200, headers = [], headersSent = True, jsonBody = None,
        written = [ErrorEvent ''AI Service Error'' ''fetch failed''], finished = True\<rparr>
   \<and> out_res (post_chat_chatId Server provider_down (Some 1) [user_content ''Hello''] sample_db)
     = \<lparr>statusCode = 200, headers = streamHeaders 1, headersSent = True, jsonBody = None,
        written = [ErrorEvent ''AI Service Error'' ''fetch failed''], finished = True\<rparr>"
  by (simp add: run_simps post_chat_chatId_def select_chat_def route_catch_def)

end
